theory Spec2Isabelle
  imports
    Complex_Main
    "HOL-Library.Char_ord"
    "HOL-Library.List_Lexorder"
    "HOL-Library.Log_Nat"
    "HOL-Library.Multiset"
begin

section \<open>GPS metadata export (gps\_metadata.py)\<close>

text \<open>
  A shallow embedding of \<^verbatim>\<open>src/gps_metadata.py\<close>: the four functions
  \<^verbatim>\<open>get_gps_info\<close>, \<^verbatim>\<open>parse_gps_coordinate\<close>, \<^verbatim>\<open>calculate_decimal\<close> and
  \<^verbatim>\<open>write_gps_to_csv\<close>. Python values are a datatype, exceptions are values of a
  sum type, every \<^verbatim>\<open>print\<close> statement is one constructor of a log entry, and
  everything the script takes from outside (the EXIF decoder and its two tag tables, the
  directory listing, the output file, the standard output, the iteration order of a hashed
  set, the parsing of text as a float) is a field of an environment record.
\<close>

subsection \<open>Python values\<close>

text \<open>
  A binary64 float: a finite value (the rational it denotes; \<open>Finite 0\<close> is \<open>+0.0\<close>),
  negative zero, an infinity (\<open>True\<close> for the negative one) or a NaN.
\<close>

datatype pyfloat = Finite rat | NegZero | Infinity bool | NaN

text \<open>
  The values an EXIF tag map can hold. \<open>PRational n d\<close> is the decoder's rational
  number with numerator \<open>n\<close> and denominator \<open>d\<close>; \<open>PDict\<close> is a dictionary keyed
  by numeric tag ids, in insertion order.
\<close>

datatype pyval =
    PNone
  | PStr string
  | PBytes string
  | PInt int
  | PFloat pyfloat
  | PRational int int
  | PTuple "pyval list"
  | PList "pyval list"
  | PDict "(int \<times> pyval) list"

text \<open>The exceptions that the modelled operations raise.\<close>

datatype exn =
    TypeError
  | ValueError
  | OverflowError
  | ZeroDivisionError
  | IndexError
  | AttributeError
  | DecoderError string
  | OSError string
  | UnicodeEncodeError

text \<open>One constructor per \<^verbatim>\<open>print\<close> statement of the script, with the interpolated values.\<close>

datatype log_entry =
    LogReadError string exn
  | LogParseError exn
  | LogDecimalError exn
  | LogSaved string
  | LogCsvError exn

text \<open>
  Sequencing of operations that may raise: the first exception ends the computation.
\<close>

definition ebind :: "exn + 'a \<Rightarrow> ('a \<Rightarrow> exn + 'b) \<Rightarrow> exn + 'b" where
  "ebind m f = (case m of Inl e \<Rightarrow> Inl e | Inr x \<Rightarrow> f x)"

subsection \<open>Floating-point arithmetic\<close>

definition pow2 :: "int \<Rightarrow> rat" where
  "pow2 e = (if 0 \<le> e then 2 ^ nat e else 1 / 2 ^ nat (- e))"

text \<open>The exponent of a positive rational: the \<open>e\<close> with \<open>2^e \<le> x < 2^(e+1)\<close>.\<close>

definition ilog2 :: "rat \<Rightarrow> int" where
  "ilog2 x =
     (let (p, q) = quotient_of x;
          d = int (floorlog 2 (nat p)) - int (floorlog 2 (nat q))
      in if pow2 d \<le> x then d else d - 1)"

definition round_half_even :: "rat \<Rightarrow> int" where
  "round_half_even y =
     (let f = \<lfloor>y\<rfloor>; d = y - of_int f
      in if d < 1 / 2 then f
         else if 1 / 2 < d then f + 1
         else if even f then f else f + 1)"

text \<open>
  Rounding of an exact result to binary64, to nearest with ties to even. The result is
  \<open>n * 2^(e - 52)\<close> with \<open>n \<le> 2^53\<close>, where \<open>e\<close> is the exponent of the value and not
  less than \<open>-1022\<close> (below it the values are subnormal). A result of \<open>2^1024\<close> or more
  is an infinity, a result of zero keeps the sign.
\<close>

definition round64 :: "rat \<Rightarrow> pyfloat" where
  "round64 x =
     (if x = 0 then Finite 0
      else
        let a = \<bar>x\<bar>;
            e = max (ilog2 a) (- 1022);
            q = pow2 (e - 52);
            n = round_half_even (a / q)
        in if 1024 \<le> e \<or> (e = 1023 \<and> n = 2 ^ 53) then Infinity (x < 0)
           else if n = 0 then (if x < 0 then NegZero else Finite 0)
           else Finite (if x < 0 then - (of_int n * q) else of_int n * q))"

fun is_neg :: "pyfloat \<Rightarrow> bool" where
  "is_neg (Finite x) = (x < 0)"
| "is_neg NegZero = True"
| "is_neg (Infinity s) = s"
| "is_neg NaN = False"

fun is_zero :: "pyfloat \<Rightarrow> bool" where
  "is_zero (Finite x) = (x = 0)"
| "is_zero NegZero = True"
| "is_zero _ = False"

text \<open>\<^verbatim>\<open>x + y\<close> on floats; it never raises.\<close>

fun fadd :: "pyfloat \<Rightarrow> pyfloat \<Rightarrow> pyfloat" where
  "fadd NaN _ = NaN"
| "fadd _ NaN = NaN"
| "fadd (Infinity s) (Infinity t) = (if s = t then Infinity s else NaN)"
| "fadd (Infinity s) _ = Infinity s"
| "fadd _ (Infinity t) = Infinity t"
| "fadd NegZero NegZero = NegZero"
| "fadd NegZero (Finite y) = Finite y"
| "fadd (Finite x) NegZero = Finite x"
| "fadd (Finite x) (Finite y) = round64 (x + y)"

text \<open>\<^verbatim>\<open>x / y\<close> on floats; a zero divisor raises \<^verbatim>\<open>ZeroDivisionError\<close>.\<close>

fun fdiv :: "pyfloat \<Rightarrow> pyfloat \<Rightarrow> exn + pyfloat" where
  "fdiv x y =
     (if is_zero y then Inl ZeroDivisionError
      else case (x, y) of
          (NaN, _) \<Rightarrow> Inr NaN
        | (_, NaN) \<Rightarrow> Inr NaN
        | (Infinity s, Infinity t) \<Rightarrow> Inr NaN
        | (Infinity s, _) \<Rightarrow> Inr (Infinity (s \<noteq> is_neg y))
        | (_, Infinity t) \<Rightarrow> Inr (if is_neg x \<noteq> t then NegZero else Finite 0)
        | (NegZero, _) \<Rightarrow> Inr (if is_neg y then Finite 0 else NegZero)
        | (Finite a, Finite b) \<Rightarrow>
            Inr (if a = 0 then (if b < 0 then NegZero else Finite 0) else round64 (a / b))
        | (Finite a, NegZero) \<Rightarrow> Inl ZeroDivisionError)"

subsection \<open>The environment\<close>

text \<open>A key of a GPS tag map: a tag name, or the raw numeric id of an unknown tag.\<close>

datatype key = is_KStr: KStr (the_str: string) | is_KInt: KInt (the_int: int)

type_synonym tagmap = "(key \<times> pyval) list"

text \<open>
  What the script takes from outside.
  \<^item> \<open>TAGS\<close>, \<open>GPSTAGS\<close>: the decoder's two lookup tables (\<^verbatim>\<open>PIL.ExifTags\<close>).
  \<^item> \<open>getexif\<close>: \<^verbatim>\<open>Image.open(path)._getexif()\<close>: an exception, \<^verbatim>\<open>None\<close>, or the
    EXIF dictionary in its iteration order.
  \<^item> \<open>listdir\<close>: \<^verbatim>\<open>os.listdir\<close>.
  \<^item> \<open>open_w\<close>: opening the output file for writing; \<open>Some e\<close> when it raises.
  \<^item> \<open>stdout_ok\<close>: whether the standard output can encode a line. \<^verbatim>\<open>print\<close> raises
    \<^verbatim>\<open>UnicodeEncodeError\<close> for a line that it cannot encode.
  \<^item> \<open>py_hash\<close>: the hash of a key. A set is iterated in the order of the hashes of its
    elements, which changes from one run of the interpreter to the next.
  \<^item> \<open>strtod\<close>: the float that \<^verbatim>\<open>float\<close> reads from a non-empty text, \<open>None\<close>
    when the text is not a number.
\<close>

record env =
  TAGS :: "int \<rightharpoonup> string"
  GPSTAGS :: "int \<rightharpoonup> string"
  getexif :: "string \<Rightarrow> exn + (int \<times> pyval) list option"
  listdir :: "string \<Rightarrow> exn + string list"
  open_w :: "string \<Rightarrow> exn option"
  stdout_ok :: "log_entry \<Rightarrow> bool"
  py_hash :: "key \<Rightarrow> nat"
  strtod :: "string \<Rightarrow> pyfloat option"

subsection \<open>Built-in operations\<close>

text \<open>\<^verbatim>\<open>bool(v)\<close>.\<close>

fun py_truthy :: "pyval \<Rightarrow> bool" where
  "py_truthy PNone = False"
| "py_truthy (PStr s) = (s \<noteq> [])"
| "py_truthy (PBytes s) = (s \<noteq> [])"
| "py_truthy (PInt i) = (i \<noteq> 0)"
| "py_truthy (PFloat f) = (\<not> is_zero f)"
| "py_truthy (PRational n d) = (d = 0 \<or> n \<noteq> 0)"
| "py_truthy (PTuple xs) = (xs \<noteq> [])"
| "py_truthy (PList xs) = (xs \<noteq> [])"
| "py_truthy (PDict d) = (d \<noteq> [])"

text \<open>\<^verbatim>\<open>isinstance(v, (list, tuple))\<close>.\<close>

fun is_list_or_tuple :: "pyval \<Rightarrow> bool" where
  "is_list_or_tuple (PTuple xs) = True"
| "is_list_or_tuple (PList xs) = True"
| "is_list_or_tuple _ = False"

text \<open>
  The items of a value under \<^verbatim>\<open>len\<close> and indexing, for the values that are sequences:
  a text is the sequence of its characters, a byte string the sequence of its bytes.
\<close>

fun py_seq_items :: "pyval \<Rightarrow> pyval list option" where
  "py_seq_items (PTuple xs) = Some xs"
| "py_seq_items (PList xs) = Some xs"
| "py_seq_items (PStr s) = Some (map (\<lambda>c. PStr [c]) s)"
| "py_seq_items (PBytes s) = Some (map (\<lambda>c. PInt (of_char c)) s)"
| "py_seq_items _ = None"

text \<open>\<^verbatim>\<open>len(v)\<close>: the numbers and \<^verbatim>\<open>None\<close> have no length.\<close>

fun py_len :: "pyval \<Rightarrow> exn + nat" where
  "py_len (PDict d) = Inr (length d)"
| "py_len v = (case py_seq_items v of Some xs \<Rightarrow> Inr (length xs) | None \<Rightarrow> Inl TypeError)"

text \<open>\<^verbatim>\<open>v[i]\<close> for a constant index \<open>i \<ge> 0\<close> on a sequence.\<close>

definition py_index :: "pyval \<Rightarrow> nat \<Rightarrow> exn + pyval" where
  "py_index v i =
     (case py_seq_items v of
        None \<Rightarrow> Inl TypeError
      | Some xs \<Rightarrow> if i < length xs then Inr (xs ! i) else Inl IndexError)"

text \<open>
  \<^verbatim>\<open>float(v)\<close>. An integer or a rational too large for a float raises
  \<^verbatim>\<open>OverflowError\<close>; a rational with denominator zero is a NaN; the empty text and a text
  that is not a number raise \<^verbatim>\<open>ValueError\<close>; a value of any other type raises
  \<^verbatim>\<open>TypeError\<close>.
\<close>

definition checked_round :: "rat \<Rightarrow> exn + pyfloat" where
  "checked_round x = (case round64 x of Infinity s \<Rightarrow> Inl OverflowError | f \<Rightarrow> Inr f)"

definition float_of_text :: "env \<Rightarrow> string \<Rightarrow> exn + pyfloat" where
  "float_of_text E s =
     (if s = [] then Inl ValueError
      else case strtod E s of None \<Rightarrow> Inl ValueError | Some f \<Rightarrow> Inr f)"

fun py_float :: "env \<Rightarrow> pyval \<Rightarrow> exn + pyfloat" where
  "py_float E (PFloat f) = Inr f"
| "py_float E (PInt i) = checked_round (of_int i)"
| "py_float E (PRational n d) = (if d = 0 then Inr NaN else checked_round (Fract n d))"
| "py_float E (PStr s) = float_of_text E s"
| "py_float E (PBytes s) = float_of_text E s"
| "py_float E _ = Inl TypeError"

subsection \<open>parse\_gps\_coordinate\<close>

text \<open>
  The body of the \<^verbatim>\<open>try\<close>: \<open>Inl\<close> when an operation raises, \<open>Inr None\<close> when the
  condition is false and control falls through to the last \<^verbatim>\<open>return\<close>. The \<^verbatim>\<open>and\<close>
  evaluates its operands from the left and stops at the first false one.
\<close>

definition parse_gps_coordinate_body :: "pyval \<Rightarrow> exn + (pyval \<times> pyval \<times> pyval) option" where
  "parse_gps_coordinate_body coordinate =
     (if \<not> py_truthy coordinate then Inr None
      else if \<not> is_list_or_tuple coordinate then Inr None
      else ebind (py_len coordinate) (\<lambda>n.
        if n \<noteq> 3 then Inr None
        else ebind (py_index coordinate 0) (\<lambda>degrees.
             ebind (py_index coordinate 1) (\<lambda>minutes.
             ebind (py_index coordinate 2) (\<lambda>seconds.
             Inr (Some (degrees, minutes, seconds)))))))"

definition sentinel :: "pyval \<times> pyval \<times> pyval" where
  "sentinel = (PStr [], PStr [], PStr [])"

text \<open>The function: its result and what it prints.\<close>

definition parse_gps_coordinate_io :: "pyval \<Rightarrow> (pyval \<times> pyval \<times> pyval) \<times> log_entry list" where
  "parse_gps_coordinate_io coordinate =
     (case parse_gps_coordinate_body coordinate of
        Inl e \<Rightarrow> (sentinel, [LogParseError e])
      | Inr None \<Rightarrow> (sentinel, [])
      | Inr (Some t) \<Rightarrow> (t, []))"

definition parse_gps_coordinate :: "pyval \<Rightarrow> pyval \<times> pyval \<times> pyval" where
  "parse_gps_coordinate coordinate = fst (parse_gps_coordinate_io coordinate)"

subsection \<open>calculate\_decimal\<close>

text \<open>
  The expression of the \<^verbatim>\<open>try\<close>, in Python's order of evaluation: \<^verbatim>\<open>float(degree)\<close>,
  \<^verbatim>\<open>float(minutes)\<close>, the division by 60, the sum, \<^verbatim>\<open>float(seconds)\<close>, the division by
  3600, the sum.
\<close>

definition calculate_decimal_body :: "env \<Rightarrow> pyval \<Rightarrow> pyval \<Rightarrow> pyval \<Rightarrow> exn + pyfloat" where
  "calculate_decimal_body E degree minutes seconds =
     ebind (py_float E degree) (\<lambda>d.
     ebind (py_float E minutes) (\<lambda>m.
     ebind (fdiv m (Finite 60)) (\<lambda>m60.
     ebind (py_float E seconds) (\<lambda>s.
     ebind (fdiv s (Finite 3600)) (\<lambda>s3600.
     Inr (fadd (fadd d m60) s3600))))))"

definition calculate_decimal :: "env \<Rightarrow> pyval \<Rightarrow> pyval \<Rightarrow> pyval \<Rightarrow> pyval \<times> log_entry list" where
  "calculate_decimal E degree minutes seconds =
     (case calculate_decimal_body E degree minutes seconds of
        Inr f \<Rightarrow> (PFloat f, [])
      | Inl e \<Rightarrow> (PStr [], [LogDecimalError e]))"

subsection \<open>Dictionaries, sets and sorting\<close>

text \<open>
  A dictionary is the list of its items in insertion order. Storing under a key that is
  present replaces the value and keeps the key's place.
\<close>

fun dict_set :: "('k \<times> 'v) list \<Rightarrow> 'k \<Rightarrow> 'v \<Rightarrow> ('k \<times> 'v) list" where
  "dict_set [] k v = [(k, v)]"
| "dict_set ((k', v') # d) k v = (if k' = k then (k, v) # d else (k', v') # dict_set d k v)"

text \<open>\<^verbatim>\<open>d.get(k, default)\<close>.\<close>

definition dict_get :: "('k \<times> 'v) list \<Rightarrow> 'k \<Rightarrow> 'v \<Rightarrow> 'v" where
  "dict_get d k dflt = (case map_of d k of Some v \<Rightarrow> v | None \<Rightarrow> dflt)"

definition dict_keys :: "('k \<times> 'v) list \<Rightarrow> 'k list" where
  "dict_keys d = map fst d"

text \<open>
  A set of keys is a list without repetition. \<^verbatim>\<open>s.update(ks)\<close> adds the keys that are
  not in it, \<^verbatim>\<open>s - t\<close> removes those of \<open>t\<close>, and iterating over it visits the keys by
  hash.
\<close>

fun set_update :: "key list \<Rightarrow> key list \<Rightarrow> key list" where
  "set_update s [] = s"
| "set_update s (k # ks) = set_update (if k \<in> set s then s else s @ [k]) ks"

definition set_minus :: "key list \<Rightarrow> key list \<Rightarrow> key list" where
  "set_minus s t = filter (\<lambda>k. k \<notin> set t) s"

definition set_iter :: "env \<Rightarrow> key list \<Rightarrow> key list" where
  "set_iter E s = sort_key (py_hash E) s"

text \<open>
  \<^verbatim>\<open>sorted(xs)\<close> on keys. Texts are compared with texts by code point and integers with
  integers by value; comparing a text with an integer raises \<^verbatim>\<open>TypeError\<close>, which any
  list holding both meets while it is sorted.
\<close>

definition py_sorted :: "key list \<Rightarrow> exn + key list" where
  "py_sorted ks =
     (if list_all is_KStr ks then Inr (map KStr (sort (map the_str ks)))
      else if list_all is_KInt ks then Inr (map KInt (sort (map the_int ks)))
      else Inl TypeError)"

text \<open>Python's \<^verbatim>\<open><\<close> on keys, where it is defined.\<close>

fun key_less :: "key \<Rightarrow> key \<Rightarrow> bool" where
  "key_less (KStr a) (KStr b) = (a < b)"
| "key_less (KInt a) (KInt b) = (a < b)"
| "key_less _ _ = False"

text \<open>
  The text of a header cell in the file: the CSV writer writes a text as it is and an
  integer as \<^verbatim>\<open>str\<close> gives it, in decimal.
\<close>

fun nat_text :: "nat \<Rightarrow> string" where
  "nat_text n =
     (if n < 10 then [''0123456789'' ! n]
      else nat_text (n div 10) @ [''0123456789'' ! (n mod 10)])"

definition int_text :: "int \<Rightarrow> string" where
  "int_text i = (if i < 0 then CHR ''-'' # nat_text (nat (- i)) else nat_text (nat i))"

fun key_text :: "key \<Rightarrow> string" where
  "key_text (KStr s) = s"
| "key_text (KInt i) = int_text i"

subsection \<open>Texts and paths\<close>

definition ascii_lower :: "char \<Rightarrow> char" where
  "ascii_lower c =
     (case map_of (zip ''ABCDEFGHIJKLMNOPQRSTUVWXYZ'' ''abcdefghijklmnopqrstuvwxyz'') c of
        Some l \<Rightarrow> l
      | None \<Rightarrow> c)"

text \<open>
  \<^verbatim>\<open>s.lower()\<close>, on the ASCII letters. No other character becomes one of the characters
  of \<^verbatim>\<open>.jpg\<close> when it is lowered, so the test below is the source's.
\<close>

definition lower :: "string \<Rightarrow> string" where
  "lower s = map ascii_lower s"

definition endswith :: "string \<Rightarrow> string \<Rightarrow> bool" where
  "endswith s suffix =
     (length suffix \<le> length s \<and> drop (length s - length suffix) s = suffix)"

text \<open>\<^verbatim>\<open>os.path.join(a, b)\<close> for POSIX paths.\<close>

definition path_join :: "string \<Rightarrow> string \<Rightarrow> string" where
  "path_join a b =
     (if b \<noteq> [] \<and> hd b = CHR ''/'' then b
      else if a = [] \<or> last a = CHR ''/'' then a @ b
      else a @ ''/'' @ b)"

subsection \<open>The encoding of texts\<close>

text \<open>
  A text is the list of its bytes in UTF-8. A file name that is not valid UTF-8 is the
  text that \<^verbatim>\<open>os.listdir\<close> returns for it, with a lone surrogate for each offending
  byte; such a text cannot be encoded as UTF-8 again. \<open>utf8_ok\<close> is the test of the
  strict decoder: no stray continuation byte, no overlong form, no surrogate, nothing
  above U+10FFFF.
\<close>

definition continuation :: "char \<Rightarrow> bool" where
  "continuation c = (CHR 0x80 \<le> c \<and> c \<le> CHR 0xBF)"

definition second_of_three :: "char \<Rightarrow> char \<Rightarrow> bool" where
  "second_of_three b c =
     (if b = CHR 0xE0 then CHR 0xA0 \<le> c \<and> c \<le> CHR 0xBF
      else if b = CHR 0xED then CHR 0x80 \<le> c \<and> c \<le> CHR 0x9F
      else continuation c)"

definition second_of_four :: "char \<Rightarrow> char \<Rightarrow> bool" where
  "second_of_four b c =
     (if b = CHR 0xF0 then CHR 0x90 \<le> c \<and> c \<le> CHR 0xBF
      else if b = CHR 0xF4 then CHR 0x80 \<le> c \<and> c \<le> CHR 0x8F
      else continuation c)"

fun utf8_ok :: "string \<Rightarrow> bool" where
  "utf8_ok [] = True"
| "utf8_ok (b # bs) =
     (if b < CHR 0x80 then utf8_ok bs
      else if CHR 0xC2 \<le> b \<and> b \<le> CHR 0xDF then
        (case bs of
           c1 # r \<Rightarrow> continuation c1 \<and> utf8_ok r
         | _ \<Rightarrow> False)
      else if CHR 0xE0 \<le> b \<and> b \<le> CHR 0xEF then
        (case bs of
           c1 # c2 # r \<Rightarrow> second_of_three b c1 \<and> continuation c2 \<and> utf8_ok r
         | _ \<Rightarrow> False)
      else if CHR 0xF0 \<le> b \<and> b \<le> CHR 0xF4 then
        (case bs of
           c1 # c2 # c3 # r \<Rightarrow>
             second_of_four b c1 \<and> continuation c2 \<and> continuation c3 \<and> utf8_ok r
         | _ \<Rightarrow> False)
      else False)"

text \<open>
  \<^verbatim>\<open>writer.writerow(row)\<close> on the file opened with \<^verbatim>\<open>encoding='utf-8'\<close> raises
  \<^verbatim>\<open>UnicodeEncodeError\<close> when a cell that is a text cannot be encoded. Every other cell
  is written as \<^verbatim>\<open>str\<close> gives it, which quotes the texts inside it with escapes.
\<close>

fun cell_ok :: "pyval \<Rightarrow> bool" where
  "cell_ok (PStr s) = utf8_ok s"
| "cell_ok _ = True"

definition writerow_ok :: "pyval list \<Rightarrow> bool" where
  "writerow_ok cells = list_all cell_ok cells"

text \<open>
  \<^verbatim>\<open>print(line)\<close>: the line is printed, or \<^verbatim>\<open>UnicodeEncodeError\<close> is raised and
  nothing is printed.
\<close>

definition py_print :: "env \<Rightarrow> log_entry \<Rightarrow> exn + log_entry list" where
  "py_print E line = (if stdout_ok E line then Inr [line] else Inl UnicodeEncodeError)"

text \<open>
  A standard output encoded as strict UTF-8: a line can be printed when the path that it
  interpolates can be encoded. The text of an exception quotes the names in it with
  escapes, so the other lines can always be printed.
\<close>

fun utf8_stdout :: "log_entry \<Rightarrow> bool" where
  "utf8_stdout (LogReadError image_path e) = utf8_ok image_path"
| "utf8_stdout (LogSaved output_csv) = utf8_ok output_csv"
| "utf8_stdout _ = True"

subsection \<open>get\_gps\_info\<close>

text \<open>\<^verbatim>\<open>GPSTAGS.get(gps_tag_id, gps_tag_id)\<close>: the name, or the id itself.\<close>

definition gps_tag :: "env \<Rightarrow> int \<Rightarrow> key" where
  "gps_tag E gps_tag_id = (case GPSTAGS E gps_tag_id of Some name \<Rightarrow> KStr name | None \<Rightarrow> KInt gps_tag_id)"

text \<open>The inner loop, over the items of the GPSInfo dictionary.\<close>

fun gps_items_loop :: "env \<Rightarrow> (int \<times> pyval) list \<Rightarrow> tagmap \<Rightarrow> tagmap" where
  "gps_items_loop E [] gps_info = gps_info"
| "gps_items_loop E ((gps_tag_id, gps_value) # rest) gps_info =
     gps_items_loop E rest (dict_set gps_info (gps_tag E gps_tag_id) gps_value)"

text \<open>
  The outer loop, over the items of the EXIF dictionary, which stops at the first tag
  named GPSInfo. \<^verbatim>\<open>value.items()\<close> raises \<^verbatim>\<open>AttributeError\<close> when the value is not a
  dictionary.
\<close>

fun exif_loop :: "env \<Rightarrow> (int \<times> pyval) list \<Rightarrow> exn + tagmap" where
  "exif_loop E [] = Inr []"
| "exif_loop E ((tag_id, v) # rest) =
     (if TAGS E tag_id = Some ''GPSInfo''
      then (case v of PDict d \<Rightarrow> Inr (gps_items_loop E d []) | _ \<Rightarrow> Inl AttributeError)
      else exif_loop E rest)"

definition get_gps_info_body :: "env \<Rightarrow> string \<Rightarrow> exn + tagmap" where
  "get_gps_info_body E image_path =
     ebind (getexif E image_path) (\<lambda>exif_data.
       case exif_data of
         None \<Rightarrow> Inr []
       | Some d \<Rightarrow> if d = [] then Inr [] else exif_loop E d)"

text \<open>
  The function: the tag map it returns and what it prints. The \<^verbatim>\<open>print\<close> of the
  \<^verbatim>\<open>except\<close> clause interpolates the path; when it raises, the exception leaves the
  function (\<open>Inl\<close>).
\<close>

definition get_gps_info :: "env \<Rightarrow> string \<Rightarrow> exn + (tagmap \<times> log_entry list)" where
  "get_gps_info E image_path =
     (case get_gps_info_body E image_path of
        Inr gps_info \<Rightarrow> Inr (gps_info, [])
      | Inl e \<Rightarrow> ebind (py_print E (LogReadError image_path e)) (\<lambda>lg. Inr ([], lg)))"

subsection \<open>write\_gps\_to\_csv\<close>

definition excluded_keys :: "key list" where
  "excluded_keys = [KStr ''GPSAltitudeRef'', KStr ''GPSVersionID'']"

definition lat_columns :: "key list" where
  "lat_columns =
     [KStr ''GPSLatitudeDegree'', KStr ''GPSLatitudeMinutes'',
      KStr ''GPSLatitudeSeconds'', KStr ''GPSLatitudeDecimal'']"

definition long_columns :: "key list" where
  "long_columns =
     [KStr ''GPSLongDegree'', KStr ''GPSLongMinutes'',
      KStr ''GPSLongSeconds'', KStr ''GPSLongitudeDecimal'']"

definition is_jpg :: "string \<Rightarrow> bool" where
  "is_jpg filename = endswith (lower filename) ''.jpg''"

text \<open>
  The first loop. Its state is the set of keys seen, the list of the images kept and what
  was printed. An exception that leaves \<^verbatim>\<open>get_gps_info\<close> ends the loop: \<open>Inl\<close>, with
  the exception and what was printed until then.
\<close>

type_synonym scan_state = "key list \<times> (string \<times> tagmap) list \<times> log_entry list"

definition scan_step ::
  "env \<Rightarrow> string \<Rightarrow> scan_state \<Rightarrow> string \<Rightarrow> (exn \<times> log_entry list) + scan_state" where
  "scan_step E directory st filename =
     (case st of (all_gps_keys, gps_data_list, lg) \<Rightarrow>
        if is_jpg filename then
          (case get_gps_info E (path_join directory filename) of
             Inl e \<Rightarrow> Inl (e, lg)
           | Inr (gps_info, lg') \<Rightarrow>
               if gps_info \<noteq> []
               then Inr (set_update all_gps_keys (dict_keys gps_info),
                         gps_data_list @ [(filename, gps_info)], lg @ lg')
               else Inr (all_gps_keys, gps_data_list, lg @ lg'))
        else Inr st)"

fun scan ::
  "env \<Rightarrow> string \<Rightarrow> scan_state \<Rightarrow> string list \<Rightarrow> (exn \<times> log_entry list) + scan_state" where
  "scan E directory st [] = Inr st"
| "scan E directory st (filename # rest) =
     (case scan_step E directory st filename of
        Inl raised \<Rightarrow> Inl raised
      | Inr st' \<Rightarrow> scan E directory st' rest)"

text \<open>The column names: the sorted keys, with the two coordinate keys replaced.\<close>

definition expand_columns :: "key list \<Rightarrow> key list" where
  "expand_columns ks =
     (let ks1 = (if KStr ''GPSLatitude'' \<in> set ks
                 then remove1 (KStr ''GPSLatitude'') ks @ lat_columns else ks)
      in if KStr ''GPSLongitude'' \<in> set ks1
         then remove1 (KStr ''GPSLongitude'') ks1 @ long_columns else ks1)"

text \<open>
  The loop over the columns of one row. Its state is the row so far, the six variables
  that hold the components of the two coordinates, and what was printed.
\<close>

record row_state =
  row :: "pyval list"
  gps_lat_degree :: pyval
  gps_lat_minutes :: pyval
  gps_lat_seconds :: pyval
  gps_long_degree :: pyval
  gps_long_minutes :: pyval
  gps_long_seconds :: pyval
  row_log :: "log_entry list"

definition row_step :: "env \<Rightarrow> tagmap \<Rightarrow> row_state \<Rightarrow> key \<Rightarrow> row_state" where
  "row_step E gps_info st key =
     (if key \<in> set [KStr ''GPSLatitudeDegree'', KStr ''GPSLatitudeMinutes'', KStr ''GPSLatitudeSeconds'']
      then
        (case parse_gps_coordinate_io (dict_get gps_info (KStr ''GPSLatitude'') PNone) of
           ((degrees, minutes, seconds), lg) \<Rightarrow>
             if key = KStr ''GPSLatitudeDegree''
             then st\<lparr>row := row st @ [degrees], gps_lat_degree := degrees,
                     row_log := row_log st @ lg\<rparr>
             else if key = KStr ''GPSLatitudeMinutes''
             then st\<lparr>row := row st @ [minutes], gps_lat_minutes := minutes,
                     row_log := row_log st @ lg\<rparr>
             else if key = KStr ''GPSLatitudeSeconds''
             then st\<lparr>row := row st @ [seconds], gps_lat_seconds := seconds,
                     row_log := row_log st @ lg\<rparr>
             else st\<lparr>row_log := row_log st @ lg\<rparr>)
      else if key = KStr ''GPSLatitudeDecimal''
      then
        (case calculate_decimal E (gps_lat_degree st) (gps_lat_minutes st) (gps_lat_seconds st) of
           (decimal_value, lg) \<Rightarrow>
             st\<lparr>row := row st @ [decimal_value], row_log := row_log st @ lg\<rparr>)
      else if key \<in> set [KStr ''GPSLongDegree'', KStr ''GPSLongMinutes'', KStr ''GPSLongSeconds'']
      then
        (case parse_gps_coordinate_io (dict_get gps_info (KStr ''GPSLongitude'') PNone) of
           ((degrees, minutes, seconds), lg) \<Rightarrow>
             if key = KStr ''GPSLongDegree''
             then st\<lparr>row := row st @ [degrees], gps_long_degree := degrees,
                     row_log := row_log st @ lg\<rparr>
             else if key = KStr ''GPSLongMinutes''
             then st\<lparr>row := row st @ [minutes], gps_long_minutes := minutes,
                     row_log := row_log st @ lg\<rparr>
             else if key = KStr ''GPSLongSeconds''
             then st\<lparr>row := row st @ [seconds], gps_long_seconds := seconds,
                     row_log := row_log st @ lg\<rparr>
             else st\<lparr>row_log := row_log st @ lg\<rparr>)
      else if key = KStr ''GPSLongitudeDecimal''
      then
        (case calculate_decimal E (gps_long_degree st) (gps_long_minutes st) (gps_long_seconds st) of
           (decimal_value, lg) \<Rightarrow>
             st\<lparr>row := row st @ [decimal_value], row_log := row_log st @ lg\<rparr>)
      else st\<lparr>row := row st @ [dict_get gps_info key (PStr [])]\<rparr>)"

fun row_loop :: "env \<Rightarrow> tagmap \<Rightarrow> row_state \<Rightarrow> key list \<Rightarrow> row_state" where
  "row_loop E gps_info st [] = st"
| "row_loop E gps_info st (key # rest) = row_loop E gps_info (row_step E gps_info st key) rest"

definition row_init :: "string \<Rightarrow> row_state" where
  "row_init filename =
     \<lparr>row = [PStr filename],
      gps_lat_degree = PStr [], gps_lat_minutes = PStr [], gps_lat_seconds = PStr [],
      gps_long_degree = PStr [], gps_long_minutes = PStr [], gps_long_seconds = PStr [],
      row_log = []\<rparr>"

definition build_row :: "env \<Rightarrow> key list \<Rightarrow> string \<times> tagmap \<Rightarrow> row_state" where
  "build_row E all_gps_keys item =
     (case item of (filename, gps_info) \<Rightarrow> row_loop E gps_info (row_init filename) all_gps_keys)"

text \<open>
  The file that was written: its header row and its data rows, the cells as the values
  handed to the CSV writer.
\<close>

record csv_file =
  header :: "key list"
  data_rows :: "pyval list list"

text \<open>
  The second loop, over the images kept: the rows written, what was printed, and the
  exception that ended the loop, if any. A row whose cells cannot all be encoded is not
  written, and \<^verbatim>\<open>writer.writerow\<close> raises.
\<close>

fun write_rows ::
  "env \<Rightarrow> key list \<Rightarrow> (string \<times> tagmap) list \<Rightarrow> pyval list list \<times> log_entry list \<times> exn option" where
  "write_rows E all_gps_keys [] = ([], [], None)"
| "write_rows E all_gps_keys (item # rest) =
     (let st = build_row E all_gps_keys item
      in if writerow_ok (row st)
         then (case write_rows E all_gps_keys rest of
                 (rows, lg, raised) \<Rightarrow> (row st # rows, row_log st @ lg, raised))
         else ([], row_log st, Some UnicodeEncodeError))"

text \<open>
  The body of the \<^verbatim>\<open>try\<close>: the content of the output file (\<open>None\<close> when the file
  was not opened), what was printed, and the exception that ended the body, if any. The
  file is closed with the rows written until then. The header row is written as it is: its
  cells are the fixed column names, names of the decoder's table and integers. A failure of
  the file system in the middle of the writing is not modelled.
\<close>

definition export_body ::
  "env \<Rightarrow> string \<Rightarrow> string \<Rightarrow> csv_file option \<times> log_entry list \<times> exn option" where
  "export_body E directory output_csv =
     (case listdir E directory of
        Inl e \<Rightarrow> (None, [], Some e)
      | Inr names \<Rightarrow>
         (case scan E directory ([], [], []) names of
            Inl (e, lg) \<Rightarrow> (None, lg, Some e)
          | Inr (all_gps_keys, gps_data_list, lg) \<Rightarrow>
              (case py_sorted (set_iter E (set_minus all_gps_keys excluded_keys)) of
                 Inl e \<Rightarrow> (None, lg, Some e)
               | Inr sorted_keys \<Rightarrow>
                  (case open_w E output_csv of
                     Some e \<Rightarrow> (None, lg, Some e)
                   | None \<Rightarrow>
                      (let all_gps_keys = expand_columns sorted_keys;
                           headers = KStr ''Image Name'' # all_gps_keys
                       in case write_rows E all_gps_keys gps_data_list of
                            (rows, lg', Some e) \<Rightarrow>
                              (Some \<lparr>header = headers, data_rows = rows\<rparr>, lg @ lg', Some e)
                          | (rows, lg', None) \<Rightarrow>
                              (case py_print E (LogSaved output_csv) of
                                 Inl e \<Rightarrow>
                                   (Some \<lparr>header = headers, data_rows = rows\<rparr>, lg @ lg', Some e)
                               | Inr saved \<Rightarrow>
                                   (Some \<lparr>header = headers, data_rows = rows\<rparr>,
                                    lg @ lg' @ saved, None)))))))"

text \<open>
  The function: the content of the output file, what was printed, and the exception that
  leaves the function, if any. An exception of the body is printed by the \<^verbatim>\<open>except\<close>
  clause; when that \<^verbatim>\<open>print\<close> raises, its exception leaves the function.
\<close>

definition write_gps_to_csv ::
  "env \<Rightarrow> string \<Rightarrow> string \<Rightarrow> csv_file option \<times> log_entry list \<times> exn option" where
  "write_gps_to_csv E directory output_csv =
     (case export_body E directory output_csv of
        (file, lg, None) \<Rightarrow> (file, lg, None)
      | (file, lg, Some e) \<Rightarrow>
          (case py_print E (LogCsvError e) of
             Inr line \<Rightarrow> (file, lg @ line, None)
           | Inl e' \<Rightarrow> (file, lg, Some e')))"

subsection \<open>What a run records\<close>

text \<open>
  The tag map of a directory entry (empty when \<^verbatim>\<open>get_gps_info\<close> does not return one),
  the entries that contribute a row (the name ends in \<^verbatim>\<open>.jpg\<close> in any case and the tag
  map is not empty) and the set of tag keys observed over those entries.
\<close>

definition tagmap_of :: "env \<Rightarrow> string \<Rightarrow> string \<Rightarrow> tagmap" where
  "tagmap_of E directory filename =
     (case get_gps_info E (path_join directory filename) of
        Inr (gps_info, lg) \<Rightarrow> gps_info
      | Inl e \<Rightarrow> [])"

definition recorded :: "env \<Rightarrow> string \<Rightarrow> string list \<Rightarrow> string list" where
  "recorded E directory names =
     filter (\<lambda>filename. is_jpg filename \<and> tagmap_of E directory filename \<noteq> []) names"

definition observed_keys :: "env \<Rightarrow> string \<Rightarrow> string list \<Rightarrow> key set" where
  "observed_keys E directory names =
     (\<Union>filename \<in> set (recorded E directory names). set (dict_keys (tagmap_of E directory filename)))"

text \<open>What the conversion of the latitude of a tag map prints, and of its longitude.\<close>

definition lat_log :: "env \<Rightarrow> tagmap \<Rightarrow> log_entry list" where
  "lat_log E g =
     (case parse_gps_coordinate (dict_get g (KStr ''GPSLatitude'') PNone) of
        (d, m, s) \<Rightarrow> snd (calculate_decimal E d m s))"

definition long_log :: "env \<Rightarrow> tagmap \<Rightarrow> log_entry list" where
  "long_log E g =
     (case parse_gps_coordinate (dict_get g (KStr ''GPSLongitude'') PNone) of
        (d, m, s) \<Rightarrow> snd (calculate_decimal E d m s))"

subsection \<open>The row with each coordinate split once\<close>

text \<open>
  The row as the specification describes it: the latitude and the longitude of the image
  are each split once and converted once, and every derived column takes its cell from
  that one result; every other column is \<^verbatim>\<open>TagMap.get(column, '')\<close>.
\<close>

definition memoized_cell :: "env \<Rightarrow> tagmap \<Rightarrow> key \<Rightarrow> pyval" where
  "memoized_cell E gps_info =
     (let lat = parse_gps_coordinate (dict_get gps_info (KStr ''GPSLatitude'') PNone);
          long = parse_gps_coordinate (dict_get gps_info (KStr ''GPSLongitude'') PNone);
          lat_decimal = fst (calculate_decimal E (fst lat) (fst (snd lat)) (snd (snd lat)));
          long_decimal = fst (calculate_decimal E (fst long) (fst (snd long)) (snd (snd long)))
      in (\<lambda>column.
            if column = KStr ''GPSLatitudeDegree'' then fst lat
            else if column = KStr ''GPSLatitudeMinutes'' then fst (snd lat)
            else if column = KStr ''GPSLatitudeSeconds'' then snd (snd lat)
            else if column = KStr ''GPSLatitudeDecimal'' then lat_decimal
            else if column = KStr ''GPSLongDegree'' then fst long
            else if column = KStr ''GPSLongMinutes'' then fst (snd long)
            else if column = KStr ''GPSLongSeconds'' then snd (snd long)
            else if column = KStr ''GPSLongitudeDecimal'' then long_decimal
            else dict_get gps_info column (PStr [])))"

definition memoized_row :: "env \<Rightarrow> key list \<Rightarrow> string \<times> tagmap \<Rightarrow> pyval list" where
  "memoized_row E columns item =
     (case item of (filename, gps_info) \<Rightarrow>
        PStr filename # map (memoized_cell E gps_info) columns)"

subsection \<open>An example directory\<close>

text \<open>
  A directory \<^verbatim>\<open>pics\<close> with five entries: \<^verbatim>\<open>c.jpg\<close>, whose latitude has two components
  only; \<^verbatim>\<open>notes.txt\<close>; \<^verbatim>\<open>a.jpg\<close>, with a full GPS block; \<^verbatim>\<open>b.JPG\<close>, without EXIF
  data; and \<^verbatim>\<open>e.Jpg\<close>, which the decoder cannot read. The standard output is encoded
  as strict UTF-8.
\<close>

definition exif_a :: "(int \<times> pyval) list" where
  "exif_a =
     [(271, PStr ''Canon''),
      (34853, PDict [(0, PBytes ''2200''), (1, PStr ''N''),
                     (2, PTuple [PRational 10 1, PRational 30 1, PRational 0 1]),
                     (3, PStr ''E''), (4, PTuple [PInt 20, PInt 15, PInt 0]),
                     (5, PBytes ''0''), (6, PRational 1234 10)])]"

definition exif_c :: "(int \<times> pyval) list" where
  "exif_c = [(34853, PDict [(1, PStr ''S''), (2, PTuple [PInt 1, PInt 2])])]"

definition example_names :: "string list" where
  "example_names = [''c.jpg'', ''notes.txt'', ''a.jpg'', ''b.JPG'', ''e.Jpg'']"

definition example_env :: env where
  "example_env =
     \<lparr>TAGS = [34853 \<mapsto> ''GPSInfo'', 271 \<mapsto> ''Make''],
      GPSTAGS = [0 \<mapsto> ''GPSVersionID'', 1 \<mapsto> ''GPSLatitudeRef'', 2 \<mapsto> ''GPSLatitude'',
                 3 \<mapsto> ''GPSLongitudeRef'', 4 \<mapsto> ''GPSLongitude'',
                 5 \<mapsto> ''GPSAltitudeRef'', 6 \<mapsto> ''GPSAltitude''],
      getexif = (\<lambda>p. if p = ''pics/a.jpg'' then Inr (Some exif_a)
                     else if p = ''pics/b.JPG'' then Inr None
                     else if p = ''pics/c.jpg'' then Inr (Some exif_c)
                     else Inl (DecoderError ''cannot identify image file'')),
      listdir = (\<lambda>d. if d = ''pics'' then Inr example_names
                     else Inl (OSError ''No such file or directory'')),
      open_w = (\<lambda>p. None),
      stdout_ok = utf8_stdout,
      py_hash = (\<lambda>k. case k of KStr s \<Rightarrow> length s | KInt i \<Rightarrow> nat \<bar>i\<bar>),
      strtod = (\<lambda>s. None)\<rparr>"

definition example_tagmap_a :: tagmap where
  "example_tagmap_a =
     [(KStr ''GPSVersionID'', PBytes ''2200''), (KStr ''GPSLatitudeRef'', PStr ''N''),
      (KStr ''GPSLatitude'', PTuple [PRational 10 1, PRational 30 1, PRational 0 1]),
      (KStr ''GPSLongitudeRef'', PStr ''E''),
      (KStr ''GPSLongitude'', PTuple [PInt 20, PInt 15, PInt 0]),
      (KStr ''GPSAltitudeRef'', PBytes ''0''), (KStr ''GPSAltitude'', PRational 1234 10)]"

definition example_tagmap_c :: tagmap where
  "example_tagmap_c =
     [(KStr ''GPSLatitudeRef'', PStr ''S''), (KStr ''GPSLatitude'', PTuple [PInt 1, PInt 2])]"

definition example_csv :: csv_file where
  "example_csv =
     \<lparr>header =
        [KStr ''Image Name'', KStr ''GPSAltitude'', KStr ''GPSLatitudeRef'', KStr ''GPSLongitudeRef'',
         KStr ''GPSLatitudeDegree'', KStr ''GPSLatitudeMinutes'', KStr ''GPSLatitudeSeconds'',
         KStr ''GPSLatitudeDecimal'', KStr ''GPSLongDegree'', KStr ''GPSLongMinutes'',
         KStr ''GPSLongSeconds'', KStr ''GPSLongitudeDecimal''],
      data_rows =
        [[PStr ''c.jpg'', PStr [], PStr ''S'', PStr [], PStr [], PStr [], PStr [], PStr [],
          PStr [], PStr [], PStr [], PStr []],
         [PStr ''a.jpg'', PRational 1234 10, PStr ''N'', PStr ''E'',
          PRational 10 1, PRational 30 1, PRational 0 1, PFloat (Finite (21 / 2)),
          PInt 20, PInt 15, PInt 0, PFloat (Finite (81 / 4))]]\<rparr>"

definition example_log :: "log_entry list" where
  "example_log =
     [LogReadError ''pics/e.Jpg'' (DecoderError ''cannot identify image file''),
      LogDecimalError ValueError, LogDecimalError ValueError, LogSaved ''out.csv'']"

text \<open>
  A second image block, with a GPS tag id that the table does not know, and the
  environment whose decoder returns it for every path.
\<close>

definition exif_u :: "(int \<times> pyval) list" where
  "exif_u = [(34853, PDict [(1, PStr ''N''), (99, PInt 7)])]"

definition unknown_tag_env :: env where
  "unknown_tag_env =
     example_env\<lparr>getexif := (\<lambda>p. Inr (Some exif_u)),
                 listdir := (\<lambda>d. Inr [''u.jpg''])\<rparr>"

text \<open>
  A third image block, whose GPS tags are all unknown to the table, and the environment
  whose decoder returns it for every path.
\<close>

definition exif_n :: "(int \<times> pyval) list" where
  "exif_n = [(34853, PDict [(100, PInt 1), (99, PInt 2)])]"

definition numeric_tag_env :: env where
  "numeric_tag_env =
     example_env\<lparr>getexif := (\<lambda>p. Inr (Some exif_n)),
                 listdir := (\<lambda>d. Inr [''n.jpg''])\<rparr>"

definition numeric_csv :: csv_file where
  "numeric_csv =
     \<lparr>header = [KStr ''Image Name'', KInt 99, KInt 100],
      data_rows = [[PStr ''n.jpg'', PInt 2, PInt 1]]\<rparr>"

text \<open>
  A directory with two entries: \<^verbatim>\<open>a.jpg\<close>, and an entry whose name is the byte FF
  followed by \<^verbatim>\<open>.jpg\<close>, which is not valid UTF-8, and which the decoder cannot read.
\<close>

definition undecodable_name :: string where
  "undecodable_name = CHR 0xFF # ''.jpg''"

definition undecodable_env :: env where
  "undecodable_env = example_env\<lparr>listdir := (\<lambda>d. Inr [''a.jpg'', undecodable_name])\<rparr>"

text \<open>
  A directory with an entry of that name and the entry \<^verbatim>\<open>c.jpg\<close>, and a decoder that
  returns the GPS block of \<^verbatim>\<open>c.jpg\<close> for every path.
\<close>

definition undecodable_gps_env :: env where
  "undecodable_gps_env =
     example_env\<lparr>getexif := (\<lambda>p. Inr (Some exif_c)),
                 listdir := (\<lambda>d. Inr [undecodable_name, ''c.jpg''])\<rparr>"

section \<open>Properties\<close>

subsection \<open>Rounding\<close>

lemma pow2_powi: "pow2 e = 2 powi e"
  by (simp add: pow2_def power_int_def inverse_eq_divide power_one_over)

lemma pow2_pos: "0 < pow2 e"
  by (simp add: pow2_powi)

lemma pow2_add: "pow2 (a + b) = pow2 a * pow2 b"
  by (simp add: pow2_powi power_int_add)

lemma pow2_strict_mono: "a < b \<Longrightarrow> pow2 a < pow2 b"
  by (simp add: pow2_powi power_int_strict_increasing)

lemma pow2_mono: "a \<le> b \<Longrightarrow> pow2 a \<le> pow2 b"
  by (simp add: pow2_powi power_int_increasing)

lemma pow2_less_iff: "pow2 a < pow2 b \<longleftrightarrow> a < b"
  using pow2_strict_mono [of a b] pow2_mono [of b a] by (auto simp: not_le [symmetric])

lemma pow2_le_iff: "pow2 a \<le> pow2 b \<longleftrightarrow> a \<le> b"
  using pow2_strict_mono [of b a] pow2_mono [of a b] by (auto simp: not_less [symmetric])

lemma pow2_nat: "pow2 (int n) = 2 ^ n"
  by (simp add: pow2_def)

lemma ilog2_bounds:
  assumes "0 < x"
  shows "pow2 (ilog2 x) \<le> x \<and> x < pow2 (ilog2 x + 1)"
proof -
  obtain p q where pq: "quotient_of x = (p, q)" by (cases "quotient_of x")
  have q: "0 < q" using quotient_of_denom_pos [OF pq] .
  have x: "x = of_int p / of_int q" using quotient_of_div [OF pq] .
  have p: "0 < p" using assms q x by (simp add: zero_less_divide_iff)
  define a where "a = floorlog 2 (nat p)"
  define b where "b = floorlog 2 (nat q)"
  define d where "d = int a - int b"
  have pa: "2 ^ (a - 1) \<le> nat p \<and> nat p < 2 ^ a"
    unfolding a_def using floorlog_bounds [of "nat p" 2] p by simp
  have qb: "2 ^ (b - 1) \<le> nat q \<and> nat q < 2 ^ b"
    unfolding b_def using floorlog_bounds [of "nat q" 2] q by simp
  have a1: "1 \<le> a" unfolding a_def using p by (simp add: floorlog_def)
  have b1: "1 \<le> b" unfolding b_def using q by (simp add: floorlog_def)
  have nat_rat: "\<And>n k. 0 < k \<Longrightarrow> (2 ^ n \<le> nat k \<longleftrightarrow> (2::rat) ^ n \<le> of_int k)
      \<and> (nat k < 2 ^ n \<longleftrightarrow> of_int k < (2::rat) ^ n)"
  proof -
    fix n :: nat and k :: int
    assume k: "0 < k"
    have "(of_nat (nat k) :: rat) = of_int k" using k by simp
    moreover have "((2::nat) ^ n \<le> nat k) = ((of_nat (2 ^ n) :: rat) \<le> of_nat (nat k))"
      by (simp only: of_nat_le_iff)
    moreover have "(nat k < (2::nat) ^ n) = ((of_nat (nat k) :: rat) < of_nat (2 ^ n))"
      by (simp only: of_nat_less_iff)
    ultimately show "(2 ^ n \<le> nat k \<longleftrightarrow> (2::rat) ^ n \<le> of_int k)
      \<and> (nat k < 2 ^ n \<longleftrightarrow> of_int k < (2::rat) ^ n)"
      by simp
  qed
  have am: "pow2 (int a - 1) = 2 ^ (a - 1)" using a1 pow2_nat [of "a - 1"] by (simp add: of_nat_diff)
  have bm: "pow2 (int b - 1) = 2 ^ (b - 1)" using b1 pow2_nat [of "b - 1"] by (simp add: of_nat_diff)
  have pr: "pow2 (int a - 1) \<le> of_int p \<and> of_int p < pow2 (int a)"
    using pa nat_rat [OF p] by (simp add: am pow2_nat)
  have qr: "pow2 (int b - 1) \<le> of_int q \<and> of_int q < pow2 (int b)"
    using qb nat_rat [OF q] by (simp add: bm pow2_nat)
  have qpos: "(0::rat) < of_int q" using q by simp
  have "of_int p < pow2 (d + 1) * pow2 (int b - 1)"
    using pr by (simp add: pow2_add [symmetric] d_def)
  also have "\<dots> \<le> pow2 (d + 1) * of_int q"
    using qr pow2_pos [of "d + 1"] by simp
  finally have up: "x < pow2 (d + 1)"
    unfolding x using qpos by (simp add: pos_divide_less_eq)
  have "pow2 (d - 1) * of_int q < pow2 (d - 1) * pow2 (int b)"
    using qr pow2_pos [of "d - 1"] by simp
  also have "\<dots> = pow2 (int a - 1)"
    by (simp add: pow2_add [symmetric] d_def)
  also have "\<dots> \<le> of_int p" using pr by simp
  finally have lo: "pow2 (d - 1) < x"
    unfolding x using qpos by (simp add: pos_less_divide_eq)
  have il: "ilog2 x = (if pow2 d \<le> x then d else d - 1)"
    by (simp add: ilog2_def pq Let_def d_def a_def b_def)
  show ?thesis
    using up lo by (auto simp: il)
qed

lemma ilog2_unique:
  assumes "0 < x" "pow2 e \<le> x" "x < pow2 (e + 1)"
  shows "ilog2 x = e"
proof -
  from ilog2_bounds [OF assms(1)] assms(2,3)
  have "pow2 (ilog2 x) < pow2 (e + 1)" "pow2 e < pow2 (ilog2 x + 1)" by auto
  then show ?thesis by (simp add: pow2_less_iff)
qed

lemma round_half_even_int: "round_half_even (of_int n) = n"
  by (simp add: round_half_even_def)

lemma round64_exact:
  assumes "x = of_int n * pow2 (e - 52)" "2 ^ 52 \<le> n" "n < 2 ^ 53" "- 1022 \<le> e" "e \<le> 1023"
  shows "round64 x = Finite x \<and> round64 (- x) = Finite (- x)"
proof -
  have q: "0 < pow2 (e - 52)" by (rule pow2_pos)
  have n: "(0::rat) < of_int n" using assms(2) by (simp add: less_le_trans [of 0 "2 ^ 52"])
  have xpos: "0 < x" using assms(1) n q by simp
  have p52: "pow2 52 = 2 ^ 52" and p53: "pow2 53 = 2 ^ 53" by (simp_all add: pow2_def)
  have "pow2 e = 2 ^ 52 * pow2 (e - 52)" using pow2_add [of 52 "e - 52"] by (simp add: p52)
  also have "\<dots> \<le> of_int n * pow2 (e - 52)"
  proof -
    have "(2::rat) ^ 52 \<le> of_int n" using assms(2) by (metis of_int_le_iff of_int_numeral of_int_power)
    then show ?thesis using q by simp
  qed
  finally have lo: "pow2 e \<le> x" using assms(1) by simp
  have "of_int n * pow2 (e - 52) < 2 ^ 53 * pow2 (e - 52)"
  proof -
    have "of_int n < (2::rat) ^ 53" using assms(3) by (metis of_int_less_iff of_int_numeral of_int_power)
    then show ?thesis using q by simp
  qed
  also have "\<dots> = pow2 (e + 1)" using pow2_add [of 53 "e - 52"] by (simp add: p53 add.commute)
  finally have hi: "x < pow2 (e + 1)" using assms(1) by simp
  have il: "ilog2 x = e" using ilog2_unique [OF xpos lo hi] .
  have dv: "x / pow2 (e - 52) = of_int n" using assms(1) q by simp
  have n0: "n \<noteq> 0" using n by simp
  have mx: "max e (- 1022) = e" using assms(4) by simp
  have rn: "round_half_even (x / pow2 (e - 52)) = n" by (simp add: dv round_half_even_int)
  have nov: "\<not> 1024 \<le> e" "n \<noteq> 2 ^ 53" using assms(3,5) by simp_all
  have ax: "\<bar>x\<bar> = x" "\<bar>- x\<bar> = x" "x \<noteq> 0" "\<not> x < 0" using xpos by simp_all
  have a: "round64 x = Finite x"
    unfolding round64_def Let_def ax il mx rn using nov n0 ax(3,4) assms(1) by simp
  have b: "round64 (- x) = Finite (- x)"
    unfolding round64_def Let_def ax il mx rn using nov n0 xpos assms(1) by simp
  show ?thesis using a b by simp
qed

text \<open>The values that the examples below need; each is represented exactly.\<close>

lemma round64_values:
  "round64 1 = Finite 1" "round64 2 = Finite 2" "round64 10 = Finite 10"
  "round64 15 = Finite 15" "round64 20 = Finite 20" "round64 30 = Finite 30"
  "round64 3600 = Finite 3600" "round64 (1 / 2) = Finite (1 / 2)"
  "round64 (1 / 4) = Finite (1 / 4)" "round64 (21 / 2) = Finite (21 / 2)"
  "round64 (81 / 4) = Finite (81 / 4)"
  using round64_exact [of 1 "2 ^ 52" 0] round64_exact [of 2 "2 ^ 52" 1]
    round64_exact [of 10 "10 * 2 ^ 49" 3] round64_exact [of 15 "15 * 2 ^ 49" 3]
    round64_exact [of 20 "20 * 2 ^ 48" 4] round64_exact [of 30 "30 * 2 ^ 48" 4]
    round64_exact [of 3600 "3600 * 2 ^ 41" 11] round64_exact [of "1 / 2" "2 ^ 52" "- 1"]
    round64_exact [of "1 / 4" "2 ^ 52" "- 2"] round64_exact [of "21 / 2" "21 * 2 ^ 48" 3]
    round64_exact [of "81 / 4" "81 * 2 ^ 46" 4]
  by (simp_all add: pow2_def)

lemma round64_0: "round64 0 = Finite 0"
  by (simp add: round64_def)

subsection \<open>parse\_gps\_coordinate\<close>

lemma parse_body_cases:
  "parse_gps_coordinate_body v =
     (case v of
        PTuple [a, b, c] \<Rightarrow> Inr (Some (a, b, c))
      | PList [a, b, c] \<Rightarrow> Inr (Some (a, b, c))
      | _ \<Rightarrow> Inr None)"
  by (cases v) (auto simp: parse_gps_coordinate_body_def ebind_def py_index_def split: list.splits)

lemma parse_io_cases:
  "parse_gps_coordinate_io v =
     (case v of
        PTuple [a, b, c] \<Rightarrow> ((a, b, c), [])
      | PList [a, b, c] \<Rightarrow> ((a, b, c), [])
      | _ \<Rightarrow> (sentinel, []))"
  by (simp add: parse_gps_coordinate_io_def parse_body_cases split: pyval.splits list.splits)

lemma parse_io_eq: "parse_gps_coordinate_io v = (parse_gps_coordinate v, [])"
  by (simp add: parse_gps_coordinate_def parse_io_cases split: pyval.splits list.splits)

lemma parse_cases:
  "parse_gps_coordinate v =
     (case v of
        PTuple [a, b, c] \<Rightarrow> (a, b, c)
      | PList [a, b, c] \<Rightarrow> (a, b, c)
      | _ \<Rightarrow> sentinel)"
  by (simp add: parse_gps_coordinate_def parse_io_cases split: pyval.splits list.splits)

text \<open>
  C9. \<^verbatim>\<open>parse_gps_coordinate\<close> is total: no operation of its body raises, for any value,
  so the \<^verbatim>\<open>except\<close> clause never runs and nothing is printed. It returns the three
  elements of a list or tuple of length exactly 3 and the sentinel for every other value;
  the three-character text \<^verbatim>\<open>'abc'\<close>, which is a sequence of three items, yields the
  sentinel.
\<close>

theorem parse_gps_coordinate_total:
  "(\<exists>r. parse_gps_coordinate_body v = Inr r)
   \<and> snd (parse_gps_coordinate_io v) = []
   \<and> parse_gps_coordinate v =
       (case v of
          PTuple [a, b, c] \<Rightarrow> (a, b, c)
        | PList [a, b, c] \<Rightarrow> (a, b, c)
        | _ \<Rightarrow> (PStr '''', PStr '''', PStr ''''))
   \<and> py_seq_items (PStr ''abc'') = Some [PStr ''a'', PStr ''b'', PStr ''c'']
   \<and> parse_gps_coordinate (PStr ''abc'') = (PStr '''', PStr '''', PStr '''')"
  by (simp add: parse_cases parse_io_eq parse_body_cases sentinel_def
        split: pyval.splits list.splits)

subsection \<open>calculate\_decimal\<close>





lemma calculate_decimal_sentinel:
  "calculate_decimal E (PStr []) (PStr []) (PStr []) = (PStr [], [LogDecimalError ValueError])"
  by (simp add: calculate_decimal_def calculate_decimal_body_def ebind_def float_of_text_def)



lemma decimal_rational_10_30_0:
  "calculate_decimal E (PRational 10 1) (PRational 30 1) (PRational 0 1)
     = (PFloat (Finite (21 / 2)), [])"
  by (simp add: calculate_decimal_def calculate_decimal_body_def ebind_def checked_round_def
        round64_values round64_0 rat_number_collapse)

lemma decimal_20_15_0:
  "calculate_decimal E (PInt 20) (PInt 15) (PInt 0) = (PFloat (Finite (81 / 4)), [])"
  by (simp add: calculate_decimal_def calculate_decimal_body_def ebind_def checked_round_def
        round64_values round64_0)


subsection \<open>The first loop, the sort and the column names\<close>

lemma set_update_set: "set (set_update s ks) = set s \<union> set ks"
  by (induction ks arbitrary: s) auto

lemma set_update_distinct: "distinct s \<Longrightarrow> distinct (set_update s ks)"
  by (induction ks arbitrary: s) auto

lemma scan_step_data:
  "scan_step E d (ks, data, lg) f = Inr (ks', data', lg') \<Longrightarrow>
     data' = data @ map (\<lambda>f. (f, tagmap_of E d f)) (recorded E d [f])
   \<and> set ks' = set ks \<union> observed_keys E d [f]
   \<and> (distinct ks \<longrightarrow> distinct ks')"
  by (auto simp: scan_step_def recorded_def observed_keys_def tagmap_of_def set_update_set
        set_update_distinct split: if_splits prod.splits sum.splits)

lemma recorded_Cons: "recorded E d (f # fs) = recorded E d [f] @ recorded E d fs"
  by (simp add: recorded_def)

lemma recorded_append: "recorded E d (xs @ ys) = recorded E d xs @ recorded E d ys"
  by (simp add: recorded_def)

lemma observed_Cons: "observed_keys E d (f # fs) = observed_keys E d [f] \<union> observed_keys E d fs"
  by (auto simp: observed_keys_def recorded_def)

lemma scan_result:
  "scan E d (ks, data, lg) names = Inr (ks', data', lg') \<Longrightarrow>
     data' = data @ map (\<lambda>f. (f, tagmap_of E d f)) (recorded E d names)
   \<and> set ks' = set ks \<union> observed_keys E d names
   \<and> (distinct ks \<longrightarrow> distinct ks')"
proof (induction names arbitrary: ks data lg)
  case Nil
  then show ?case by (simp add: recorded_def observed_keys_def)
next
  case (Cons f fs)
  from Cons.prems obtain k1 d1 l1 where st: "scan_step E d (ks, data, lg) f = Inr (k1, d1, l1)"
    by (cases "scan_step E d (ks, data, lg) f") auto
  from Cons.prems st have rest: "scan E d (k1, d1, l1) fs = Inr (ks', data', lg')" by simp
  note a = scan_step_data [OF st] and b = Cons.IH [OF rest]
  show ?case
    using a b by (simp add: recorded_Cons [of E d f fs] observed_Cons [of E d f fs] Un_assoc)
qed

lemma the_str_inj: "is_KStr x \<Longrightarrow> is_KStr y \<Longrightarrow> the_str x = the_str y \<Longrightarrow> x = y"
  by (cases x; cases y; simp)

lemma the_int_inj: "is_KInt x \<Longrightarrow> is_KInt y \<Longrightarrow> the_int x = the_int y \<Longrightarrow> x = y"
  by (cases x; cases y; simp)

lemma py_sorted_props:
  assumes "py_sorted ks = Inr sk" and "distinct ks"
  shows "set sk = set ks \<and> distinct sk \<and> sorted_wrt key_less sk"
proof (cases "list_all is_KStr ks")
  case True
  with assms have sk: "sk = map KStr (sort (map the_str ks))" by (simp add: py_sorted_def)
  have inj: "inj_on the_str (set ks)"
    using True by (auto simp: inj_on_def list_all_iff intro: the_str_inj)
  have d: "distinct (map the_str ks)" using assms(2) inj by (simp add: distinct_map)
  have id: "\<And>k. k \<in> set ks \<Longrightarrow> KStr (the_str k) = k"
    using True by (auto simp: list_all_iff)
  have s1: "set sk = set ks" unfolding sk by (force simp: id)
  have s2: "distinct sk" unfolding sk using d by (simp add: distinct_map inj_on_def)
  have "sorted_wrt (<) (sort (map the_str ks))"
    using d by (simp add: strict_sorted_iff)
  then have s3: "sorted_wrt key_less sk" unfolding sk by (simp add: sorted_wrt_map)
  from s1 s2 s3 show ?thesis by simp
next
  case False
  with assms have ints: "list_all is_KInt ks" and sk: "sk = map KInt (sort (map the_int ks))"
    by (auto simp: py_sorted_def split: if_splits)
  have inj: "inj_on the_int (set ks)"
    using ints by (auto simp: inj_on_def list_all_iff intro: the_int_inj)
  have d: "distinct (map the_int ks)" using assms(2) inj by (simp add: distinct_map)
  have id: "\<And>k. k \<in> set ks \<Longrightarrow> KInt (the_int k) = k"
    using ints by (auto simp: list_all_iff)
  have s1: "set sk = set ks" unfolding sk by (force simp: id)
  have s2: "distinct sk" unfolding sk using d by (simp add: distinct_map inj_on_def)
  have "sorted_wrt (<) (sort (map the_int ks))"
    using d by (simp add: strict_sorted_iff)
  then have s3: "sorted_wrt key_less sk" unfolding sk by (simp add: sorted_wrt_map)
  from s1 s2 s3 show ?thesis by simp
qed

lemma filter_drop_absent:
  "x \<notin> set xs \<Longrightarrow> filter (\<lambda>k. P k \<and> k \<noteq> x) xs = filter P xs"
  by (induction xs) auto

lemma filter_drop_absent':
  "x \<notin> set xs \<Longrightarrow> filter (\<lambda>k. k \<noteq> x \<and> P k) xs = filter P xs"
  by (induction xs) auto

lemma filter_absent: "x \<notin> set xs \<Longrightarrow> filter (\<lambda>k. k \<noteq> x) xs = xs"
  by (induction xs) auto

lemma remove1_distinct_filter:
  "distinct xs \<Longrightarrow> remove1 x xs = filter (\<lambda>k. k \<noteq> x) xs"
  by (induction xs) (auto simp: filter_absent)

lemma expand_columns_distinct:
  assumes "distinct sk"
  shows "expand_columns sk =
           filter (\<lambda>k. k \<noteq> KStr ''GPSLatitude'' \<and> k \<noteq> KStr ''GPSLongitude'') sk
           @ (if KStr ''GPSLatitude'' \<in> set sk then lat_columns else [])
           @ (if KStr ''GPSLongitude'' \<in> set sk then long_columns else [])"
proof -
  let ?lat = "KStr ''GPSLatitude''" and ?long = "KStr ''GPSLongitude''"
  have l1: "?long \<notin> set lat_columns" by (simp add: lat_columns_def)
  have d: "distinct (filter (\<lambda>k. k \<noteq> ?lat) sk)" using assms by simp
  have ne: "?long \<noteq> ?lat" by simp
  show ?thesis
  proof (cases "?lat \<in> set sk")
    case lat: True
    show ?thesis
    proof (cases "?long \<in> set sk")
      case True
      then have "?long \<in> set (filter (\<lambda>k. k \<noteq> ?lat) sk)" using ne by simp
      then show ?thesis
        using lat True l1 assms d
        by (simp add: expand_columns_def Let_def remove1_distinct_filter remove1_append)
    next
      case False
      then show ?thesis
        using lat l1 assms
        by (simp add: expand_columns_def Let_def remove1_distinct_filter filter_drop_absent)
    qed
  next
    case nolat: False
    show ?thesis
    proof (cases "?long \<in> set sk")
      case True
      then show ?thesis
        using nolat assms
        by (simp add: expand_columns_def Let_def remove1_distinct_filter filter_drop_absent')
    next
      case False
      then show ?thesis
        using nolat
        by (simp add: expand_columns_def Let_def filter_drop_absent filter_absent)
    qed
  qed
qed

subsection \<open>The loop over the columns\<close>

lemma row_step_row: "\<exists>c. row (row_step E g st k) = row st @ [c]"
  by (auto simp: row_step_def split: prod.splits)

lemma row_loop_row:
  "\<exists>cells. row (row_loop E g st ks) = row st @ cells \<and> length cells = length ks"
proof (induction ks arbitrary: st)
  case Nil
  then show ?case by simp
next
  case (Cons k ks)
  obtain c where c: "row (row_step E g st k) = row st @ [c]"
    using row_step_row by blast
  obtain cells where cells: "row (row_loop E g (row_step E g st k) ks) = row (row_step E g st k) @ cells"
     "length cells = length ks"
    using Cons.IH by blast
  show ?case using c cells by simp
qed

lemma build_row_shape:
  "\<exists>cells. row (build_row E cols (fn, g)) = PStr fn # cells \<and> length cells = length cols"
  using row_loop_row [of E g "row_init fn" cols] by (simp add: build_row_def row_init_def)

lemma row_step_no_decimal:
  assumes "k \<noteq> KStr ''GPSLatitudeDecimal''" "k \<noteq> KStr ''GPSLongitudeDecimal''"
  shows "row (row_step E g st k) = row st @ [memoized_cell E g k]
       \<and> row_log (row_step E g st k) = row_log st"
  using assms
  by (simp add: row_step_def parse_io_eq memoized_cell_def Let_def split: prod.splits)

lemma row_loop_no_decimal:
  assumes "KStr ''GPSLatitudeDecimal'' \<notin> set ks" "KStr ''GPSLongitudeDecimal'' \<notin> set ks"
  shows "row (row_loop E g st ks) = row st @ map (memoized_cell E g) ks
       \<and> row_log (row_loop E g st ks) = row_log st"
  using assms
proof (induction ks arbitrary: st)
  case Nil
  then show ?case by simp
next
  case (Cons k ks)
  then have k: "k \<noteq> KStr ''GPSLatitudeDecimal''" "k \<noteq> KStr ''GPSLongitudeDecimal''" by auto
  from Cons have ih:
    "row (row_loop E g (row_step E g st k) ks) = row (row_step E g st k) @ map (memoized_cell E g) ks
     \<and> row_log (row_loop E g (row_step E g st k) ks) = row_log (row_step E g st k)"
    by simp
  show ?case using ih row_step_no_decimal [OF k, of E g st] by simp
qed

lemma row_loop_append: "row_loop E g st (ks @ ks') = row_loop E g (row_loop E g st ks) ks'"
  by (induction ks arbitrary: st) auto

lemma row_loop_lat:
  "row (row_loop E g st lat_columns) = row st @ map (memoized_cell E g) lat_columns
   \<and> row_log (row_loop E g st lat_columns) = row_log st @ lat_log E g"
  by (simp add: lat_columns_def row_step_def parse_io_eq memoized_cell_def lat_log_def Let_def
        split: prod.splits)

lemma row_loop_long:
  "row (row_loop E g st long_columns) = row st @ map (memoized_cell E g) long_columns
   \<and> row_log (row_loop E g st long_columns) = row_log st @ long_log E g"
  by (simp add: long_columns_def row_step_def parse_io_eq memoized_cell_def long_log_def Let_def
        split: prod.splits)

lemma build_row_memoized:
  assumes "KStr ''GPSLatitudeDecimal'' \<notin> set rest" "KStr ''GPSLongitudeDecimal'' \<notin> set rest"
    and "L = [] \<or> L = lat_columns" and "G = [] \<or> G = long_columns"
  shows "row (build_row E (rest @ L @ G) (fn, g)) = memoized_row E (rest @ L @ G) (fn, g)
       \<and> row_log (build_row E (rest @ L @ G) (fn, g)) =
           (if L = [] then [] else lat_log E g) @ (if G = [] then [] else long_log E g)"
proof -
  let ?s0 = "row_init fn"
  let ?s1 = "row_loop E g ?s0 rest"
  let ?s2 = "row_loop E g ?s1 L"
  let ?s3 = "row_loop E g ?s2 G"
  have b: "build_row E (rest @ L @ G) (fn, g) = ?s3"
    by (simp add: build_row_def row_loop_append)
  have s1: "row ?s1 = PStr fn # map (memoized_cell E g) rest \<and> row_log ?s1 = []"
    using row_loop_no_decimal [OF assms(1,2), of E g ?s0] by (simp add: row_init_def)
  have s2: "row ?s2 = row ?s1 @ map (memoized_cell E g) L
      \<and> row_log ?s2 = row_log ?s1 @ (if L = [] then [] else lat_log E g)"
    using assms(3) row_loop_lat [of E g ?s1] by (auto simp: lat_columns_def)
  have s3: "row ?s3 = row ?s2 @ map (memoized_cell E g) G
      \<and> row_log ?s3 = row_log ?s2 @ (if G = [] then [] else long_log E g)"
    using assms(4) row_loop_long [of E g ?s2] by (auto simp: long_columns_def)
  show ?thesis
    unfolding b using s1 s2 s3 by (simp add: memoized_row_def)
qed


subsection \<open>The whole run\<close>

lemma write_rows_prefix:
  "\<exists>n\<le>length items. fst (write_rows E cols items) =
      map (\<lambda>item. row (build_row E cols item)) (take n items)"
proof (induction items)
  case Nil
  then show ?case by simp
next
  case (Cons item items)
  show ?case
  proof (cases "writerow_ok (row (build_row E cols item))")
    case True
    from Cons.IH obtain n where n: "n \<le> length items"
      "fst (write_rows E cols items) = map (\<lambda>item. row (build_row E cols item)) (take n items)"
      by blast
    show ?thesis
      using True n by (intro exI [of _ "Suc n"]) (auto simp: Let_def split: prod.splits)
  next
    case False
    then show ?thesis by (intro exI [of _ 0]) (simp add: Let_def)
  qed
qed

lemma write_rows_take:
  "fst (write_rows E cols items) =
     map (\<lambda>item. row (build_row E cols item)) (take (length (fst (write_rows E cols items))) items)"
proof -
  from write_rows_prefix [of items E cols] obtain n where n: "n \<le> length items"
    "fst (write_rows E cols items) = map (\<lambda>item. row (build_row E cols item)) (take n items)"
    by blast
  have "length (fst (write_rows E cols items)) = n" using n by simp
  then show ?thesis using n(2) by simp
qed

lemma write_rows_length: "length (fst (write_rows E cols items)) \<le> length items"
  using write_rows_prefix [of items E cols] by auto

lemma write_rows_all:
  "list_all (\<lambda>item. writerow_ok (row (build_row E cols item))) items \<Longrightarrow>
     write_rows E cols items =
       (map (\<lambda>item. row (build_row E cols item)) items,
        concat (map (\<lambda>item. row_log (build_row E cols item)) items), None)"
  by (induction items) (simp_all add: Let_def)

lemma write_file: "fst (write_gps_to_csv E d out) = fst (export_body E d out)"
  by (simp add: write_gps_to_csv_def split: prod.splits option.splits sum.splits)

lemma export_file:
  "fst (export_body E d out) =
     (case listdir E d of
        Inl e \<Rightarrow> None
      | Inr names \<Rightarrow>
         (case scan E d ([], [], []) names of
            Inl raised \<Rightarrow> None
          | Inr st \<Rightarrow>
             (case py_sorted (set_iter E (set_minus (fst st) excluded_keys)) of
                Inl e \<Rightarrow> None
              | Inr sk \<Rightarrow>
                 (case open_w E out of
                    Some e \<Rightarrow> None
                  | None \<Rightarrow>
                     Some \<lparr>header = KStr ''Image Name'' # expand_columns sk,
                           data_rows = fst (write_rows E (expand_columns sk) (fst (snd st)))\<rparr>))))"
  by (simp add: export_body_def Let_def split: prod.splits option.splits sum.splits)

lemma write_Some:
  assumes "fst (write_gps_to_csv E d out) = Some f"
  shows "\<exists>names sk. listdir E d = Inr names
     \<and> set sk = observed_keys E d names - set excluded_keys
     \<and> distinct sk \<and> sorted_wrt key_less sk
     \<and> header f = KStr ''Image Name'' # expand_columns sk
     \<and> data_rows f = fst (write_rows E (expand_columns sk)
                            (map (\<lambda>fn. (fn, tagmap_of E d fn)) (recorded E d names)))"
proof -
  note a = assms [unfolded write_file export_file]
  from a obtain names where names: "listdir E d = Inr names"
    by (cases "listdir E d") auto
  from a names obtain ks data lg where sc: "scan E d ([], [], []) names = Inr (ks, data, lg)"
    by (cases "scan E d ([], [], []) names") auto
  from scan_result [OF sc]
  have data: "data = map (\<lambda>fn. (fn, tagmap_of E d fn)) (recorded E d names)"
    and ks: "set ks = observed_keys E d names" and dks: "distinct ks" by auto
  let ?in = "set_iter E (set_minus ks excluded_keys)"
  from a names sc obtain sk where sk: "py_sorted ?in = Inr sk"
    by (cases "py_sorted ?in") auto
  have din: "distinct ?in" using dks by (simp add: set_iter_def set_minus_def)
  have sin: "set ?in = observed_keys E d names - set excluded_keys"
    using ks by (auto simp: set_iter_def set_minus_def)
  from a names sc sk have op: "open_w E out = None"
    by (cases "open_w E out") auto
  from a names sc sk op
  have f: "f = \<lparr>header = KStr ''Image Name'' # expand_columns sk,
               data_rows = fst (write_rows E (expand_columns sk) data)\<rparr>"
    by simp
  from py_sorted_props [OF sk din] sin
  have p: "set sk = observed_keys E d names - set excluded_keys" "distinct sk" "sorted_wrt key_less sk"
    by auto
  show ?thesis
    using names p f data by (intro exI [of _ names] exI [of _ sk]) simp
qed

lemma write_saved:
  assumes "listdir E d = Inr names"
    and "scan E d ([], [], []) names = Inr (ks, data, lg)"
    and "py_sorted (set_iter E (set_minus ks excluded_keys)) = Inr sk"
    and "open_w E out = None"
    and "write_rows E (expand_columns sk) data = (rows, lg', None)"
    and "stdout_ok E (LogSaved out)"
  shows "write_gps_to_csv E d out =
     (Some \<lparr>header = KStr ''Image Name'' # expand_columns sk, data_rows = rows\<rparr>,
      lg @ lg' @ [LogSaved out], None)"
  using assms by (simp add: write_gps_to_csv_def export_body_def py_print_def Let_def)

lemma write_raised:
  assumes "export_body E d out = (file, lg, Some e)" and "stdout_ok E (LogCsvError e)"
  shows "write_gps_to_csv E d out = (file, lg @ [LogCsvError e], None)"
  using assms by (simp add: write_gps_to_csv_def py_print_def)

subsection \<open>The keys of a tag map\<close>

lemma dict_set_keys: "set (dict_keys (dict_set g k v)) = insert k (set (dict_keys g))"
  by (induction g k v rule: dict_set.induct) (auto simp: dict_keys_def)

lemma gps_items_loop_keys:
  "set (dict_keys (gps_items_loop E d acc)) = set (dict_keys acc) \<union> gps_tag E ` fst ` set d"
proof (induction d arbitrary: acc)
  case Nil
  then show ?case by simp
next
  case (Cons x d)
  obtain i v where x: "x = (i, v)" by (cases x)
  show ?case unfolding x by (simp add: Cons.IH dict_set_keys)
qed

lemma exif_loop_keys:
  "exif_loop E ex = Inr g \<Longrightarrow> k \<in> set (dict_keys g) \<Longrightarrow> \<exists>i. k = gps_tag E i"
proof (induction ex)
  case Nil
  then show ?case by (simp add: dict_keys_def)
next
  case (Cons x ex)
  obtain t v where x: "x = (t, v)" by (cases x)
  show ?case
  proof (cases "TAGS E t = Some ''GPSInfo''")
    case True
    with Cons.prems x obtain d where "g = gps_items_loop E d []"
      by (cases v) auto
    with Cons.prems(2) gps_items_loop_keys [of E d "[]"] show ?thesis
      by (auto simp: dict_keys_def)
  next
    case False
    with Cons x show ?thesis by simp
  qed
qed

lemma get_gps_info_keys:
  assumes "get_gps_info E p = Inr (g, lg)" and "k \<in> set (dict_keys g)"
  shows "\<exists>i. k = gps_tag E i"
  using assms exif_loop_keys [of E _ _ k]
  by (auto simp: get_gps_info_def get_gps_info_body_def ebind_def dict_keys_def
        split: sum.splits option.splits if_splits)

lemma tagmap_of_keys:
  assumes "k \<in> set (dict_keys (tagmap_of E d fn))"
  shows "\<exists>i. k = gps_tag E i"
proof (cases "get_gps_info E (path_join d fn)")
  case (Inl e)
  with assms show ?thesis by (simp add: tagmap_of_def dict_keys_def)
next
  case (Inr r)
  obtain g lg where r: "r = (g, lg)" by (cases r)
  with Inr assms have "k \<in> set (dict_keys g)" by (simp add: tagmap_of_def)
  with Inr r show ?thesis using get_gps_info_keys by blast
qed

lemma observed_keys_tags:
  assumes "k \<in> observed_keys E d names"
  shows "\<exists>i. k = gps_tag E i"
  using assms tagmap_of_keys by (auto simp: observed_keys_def)

lemma gps_tag_not_name:
  "name \<notin> ran (GPSTAGS E) \<Longrightarrow> gps_tag E i \<noteq> KStr name"
  by (auto simp: gps_tag_def ran_def split: option.splits)

subsection \<open>What the functions read of the environment\<close>

lemma gps_items_loop_cong:
  "GPSTAGS E' = GPSTAGS E \<Longrightarrow> gps_items_loop E' d acc = gps_items_loop E d acc"
  by (induction d arbitrary: acc) (auto simp: gps_tag_def)

lemma exif_loop_cong:
  "TAGS E' = TAGS E \<Longrightarrow> GPSTAGS E' = GPSTAGS E \<Longrightarrow> exif_loop E' ex = exif_loop E ex"
  by (induction ex) (auto simp: gps_items_loop_cong [of E' E] split: pyval.splits)

lemma get_gps_info_cong:
  "TAGS E' = TAGS E \<Longrightarrow> GPSTAGS E' = GPSTAGS E \<Longrightarrow> getexif E' = getexif E \<Longrightarrow>
     stdout_ok E' = stdout_ok E \<Longrightarrow> get_gps_info E' p = get_gps_info E p"
proof -
  assume a: "TAGS E' = TAGS E" "GPSTAGS E' = GPSTAGS E" "getexif E' = getexif E"
    "stdout_ok E' = stdout_ok E"
  have eq: "exif_loop E' = exif_loop E" by (rule ext) (rule exif_loop_cong [OF a(1,2)])
  have pr: "py_print E' = py_print E" by (rule ext) (simp add: py_print_def a(4))
  show ?thesis unfolding get_gps_info_def get_gps_info_body_def a(3) eq pr by (rule refl)
qed

lemma py_float_cong: "strtod E' = strtod E \<Longrightarrow> py_float E' v = py_float E v"
  by (cases v) (simp_all add: float_of_text_def)

lemma calculate_decimal_cong:
  "strtod E' = strtod E \<Longrightarrow> calculate_decimal E' a b c = calculate_decimal E a b c"
  by (simp add: calculate_decimal_def calculate_decimal_body_def py_float_cong [of E' E])

lemma row_step_cong: "strtod E' = strtod E \<Longrightarrow> row_step E' g st k = row_step E g st k"
  by (simp add: row_step_def calculate_decimal_cong [of E' E])

lemma row_loop_cong: "strtod E' = strtod E \<Longrightarrow> row_loop E' g st ks = row_loop E g st ks"
  by (induction ks arbitrary: st) (simp_all add: row_step_cong [of E' E])

lemma build_row_cong: "strtod E' = strtod E \<Longrightarrow> build_row E' cols item = build_row E cols item"
  by (simp add: build_row_def row_loop_cong [of E' E] split: prod.splits)

lemma write_rows_cong:
  "strtod E' = strtod E \<Longrightarrow> write_rows E' cols items = write_rows E cols items"
  by (induction items) (auto simp: build_row_cong [of E' E] Let_def split: prod.splits)

lemma scan_step_cong:
  assumes "get_gps_info E' (path_join d fn) = get_gps_info E (path_join d fn)"
  shows "scan_step E' d st fn = scan_step E d st fn"
  unfolding scan_step_def assms by (rule refl)

lemma scan_cong:
  assumes "\<And>fn. get_gps_info E' (path_join d fn) = get_gps_info E (path_join d fn)"
  shows "scan E' d st names = scan E d st names"
  by (induction names arbitrary: st) (auto simp: scan_step_cong [OF assms] split: sum.splits)

lemma py_sorted_mset:
  assumes "mset xs = mset ys"
  shows "py_sorted xs = py_sorted ys"
proof -
  have s: "set xs = set ys" using assms by (rule mset_eq_setD)
  have a: "list_all is_KStr xs = list_all is_KStr ys" "list_all is_KInt xs = list_all is_KInt ys"
    using s by (simp_all add: list_all_iff)
  have b: "sort (map the_str xs) = sort (map the_str ys)" "sort (map the_int xs) = sort (map the_int ys)"
    using assms by (auto intro!: properties_for_sort)
  show ?thesis by (simp add: py_sorted_def a b)
qed

lemma py_sorted_set_iter: "py_sorted (set_iter E' ks) = py_sorted (set_iter E ks)"
  by (rule py_sorted_mset) (simp add: set_iter_def)

subsection \<open>The example directory\<close>

lemma example_listdir: "listdir example_env ''pics'' = Inr example_names"
  by (simp add: example_env_def)

lemma example_reads:
  "get_gps_info example_env ''pics/c.jpg'' = Inr (example_tagmap_c, [])"
  "get_gps_info example_env ''pics/a.jpg'' = Inr (example_tagmap_a, [])"
  "get_gps_info example_env ''pics/b.JPG'' = Inr ([], [])"
  "get_gps_info example_env ''pics/e.Jpg'' =
     Inr ([], [LogReadError ''pics/e.Jpg'' (DecoderError ''cannot identify image file'')])"
  by (simp_all add: get_gps_info_def get_gps_info_body_def ebind_def py_print_def
        example_env_def exif_a_def exif_c_def gps_tag_def example_tagmap_a_def example_tagmap_c_def)

lemma example_paths:
  "path_join ''pics'' ''c.jpg'' = ''pics/c.jpg''"
  "path_join ''pics'' ''a.jpg'' = ''pics/a.jpg''"
  "path_join ''pics'' ''b.JPG'' = ''pics/b.JPG''"
  "path_join ''pics'' ''e.Jpg'' = ''pics/e.Jpg''"
  by (simp_all add: path_join_def)

lemma example_tagmaps:
  "tagmap_of example_env ''pics'' ''c.jpg'' = example_tagmap_c"
  "tagmap_of example_env ''pics'' ''a.jpg'' = example_tagmap_a"
  "tagmap_of example_env ''pics'' ''b.JPG'' = []"
  "tagmap_of example_env ''pics'' ''e.Jpg'' = []"
  by (simp_all add: tagmap_of_def example_paths example_reads)

lemma example_is_jpg:
  "is_jpg ''c.jpg''" "\<not> is_jpg ''notes.txt''" "is_jpg ''a.jpg''" "is_jpg ''b.JPG''" "is_jpg ''e.Jpg''"
  by (simp_all add: is_jpg_def endswith_def lower_def ascii_lower_def)

lemma example_recorded: "recorded example_env ''pics'' example_names = [''c.jpg'', ''a.jpg'']"
  by (simp add: recorded_def example_names_def example_is_jpg example_tagmaps
        example_tagmap_a_def example_tagmap_c_def)

lemma example_scan:
  "scan example_env ''pics'' ([], [], []) example_names =
     Inr ([KStr ''GPSLatitudeRef'', KStr ''GPSLatitude'', KStr ''GPSVersionID'',
           KStr ''GPSLongitudeRef'', KStr ''GPSLongitude'', KStr ''GPSAltitudeRef'',
           KStr ''GPSAltitude''],
          [(''c.jpg'', example_tagmap_c), (''a.jpg'', example_tagmap_a)],
          [LogReadError ''pics/e.Jpg'' (DecoderError ''cannot identify image file'')])"
proof -
  have k: "dict_keys example_tagmap_c = [KStr ''GPSLatitudeRef'', KStr ''GPSLatitude'']"
    "dict_keys example_tagmap_a =
       [KStr ''GPSVersionID'', KStr ''GPSLatitudeRef'', KStr ''GPSLatitude'',
        KStr ''GPSLongitudeRef'', KStr ''GPSLongitude'', KStr ''GPSAltitudeRef'',
        KStr ''GPSAltitude'']"
    by (simp_all add: dict_keys_def example_tagmap_a_def example_tagmap_c_def)
  have ne: "example_tagmap_c \<noteq> []" "example_tagmap_a \<noteq> []"
    by (simp_all add: example_tagmap_a_def example_tagmap_c_def)
  show ?thesis
    by (simp add: example_names_def scan_step_def example_is_jpg example_paths example_reads ne k)
qed

lemma example_sorted:
  "py_sorted (set_iter example_env
      (set_minus [KStr ''GPSLatitudeRef'', KStr ''GPSLatitude'', KStr ''GPSVersionID'',
                  KStr ''GPSLongitudeRef'', KStr ''GPSLongitude'', KStr ''GPSAltitudeRef'',
                  KStr ''GPSAltitude''] excluded_keys)) =
     Inr [KStr ''GPSAltitude'', KStr ''GPSLatitude'', KStr ''GPSLatitudeRef'',
          KStr ''GPSLongitude'', KStr ''GPSLongitudeRef'']"
  by (simp add: py_sorted_def set_iter_def set_minus_def excluded_keys_def example_env_def)

lemma example_columns:
  "expand_columns [KStr ''GPSAltitude'', KStr ''GPSLatitude'', KStr ''GPSLatitudeRef'',
          KStr ''GPSLongitude'', KStr ''GPSLongitudeRef''] = tl (header example_csv)"
  by (simp add: expand_columns_def lat_columns_def long_columns_def example_csv_def)

lemma example_rows:
  "row (build_row example_env (tl (header example_csv)) (''c.jpg'', example_tagmap_c))
     = data_rows example_csv ! 0"
  "row_log (build_row example_env (tl (header example_csv)) (''c.jpg'', example_tagmap_c))
     = [LogDecimalError ValueError, LogDecimalError ValueError]"
  "row (build_row example_env (tl (header example_csv)) (''a.jpg'', example_tagmap_a))
     = data_rows example_csv ! 1"
  "row_log (build_row example_env (tl (header example_csv)) (''a.jpg'', example_tagmap_a)) = []"
proof -
  let ?rest = "[KStr ''GPSAltitude'', KStr ''GPSLatitudeRef'', KStr ''GPSLongitudeRef'']"
  have cols: "tl (header example_csv) = ?rest @ lat_columns @ long_columns"
    by (simp add: example_csv_def lat_columns_def long_columns_def)
  have nd: "KStr ''GPSLatitudeDecimal'' \<notin> set ?rest" "KStr ''GPSLongitudeDecimal'' \<notin> set ?rest"
    by simp_all
  have ne: "lat_columns \<noteq> []" "long_columns \<noteq> []"
    by (simp_all add: lat_columns_def long_columns_def)
  have d3: "lat_columns = [] \<or> lat_columns = lat_columns"
    and d4: "long_columns = [] \<or> long_columns = long_columns" by simp_all
  note m = build_row_memoized [OF nd d3 d4, of example_env]
  have pc: "parse_gps_coordinate (dict_get example_tagmap_c (KStr ''GPSLatitude'') PNone) = sentinel"
    "parse_gps_coordinate (dict_get example_tagmap_c (KStr ''GPSLongitude'') PNone) = sentinel"
    by (simp_all add: parse_cases dict_get_def example_tagmap_c_def)
  have pa: "parse_gps_coordinate (dict_get example_tagmap_a (KStr ''GPSLatitude'') PNone)
      = (PRational 10 1, PRational 30 1, PRational 0 1)"
    "parse_gps_coordinate (dict_get example_tagmap_a (KStr ''GPSLongitude'') PNone)
      = (PInt 20, PInt 15, PInt 0)"
    by (simp_all add: parse_cases dict_get_def example_tagmap_a_def)
  have mc: "memoized_row example_env (?rest @ lat_columns @ long_columns) (''c.jpg'', example_tagmap_c)
      = data_rows example_csv ! 0"
    by (simp add: memoized_row_def memoized_cell_def Let_def parse_cases sentinel_def
          calculate_decimal_sentinel lat_columns_def long_columns_def example_csv_def
          dict_get_def example_tagmap_c_def)
  have ma: "memoized_row example_env (?rest @ lat_columns @ long_columns) (''a.jpg'', example_tagmap_a)
      = data_rows example_csv ! 1"
    by (simp add: memoized_row_def memoized_cell_def Let_def parse_cases decimal_rational_10_30_0
          decimal_20_15_0 lat_columns_def long_columns_def example_csv_def
          dict_get_def example_tagmap_a_def)
  have lc: "lat_log example_env example_tagmap_c = [LogDecimalError ValueError]"
    "long_log example_env example_tagmap_c = [LogDecimalError ValueError]"
    by (simp_all add: lat_log_def long_log_def pc sentinel_def calculate_decimal_sentinel)
  have la: "lat_log example_env example_tagmap_a = []"
    "long_log example_env example_tagmap_a = []"
    by (simp_all add: lat_log_def long_log_def pa decimal_rational_10_30_0 decimal_20_15_0)
  show "row (build_row example_env (tl (header example_csv)) (''c.jpg'', example_tagmap_c))
      = data_rows example_csv ! 0"
    unfolding cols using m [of "''c.jpg''" example_tagmap_c] mc by simp
  show "row_log (build_row example_env (tl (header example_csv)) (''c.jpg'', example_tagmap_c))
      = [LogDecimalError ValueError, LogDecimalError ValueError]"
    unfolding cols using m [of "''c.jpg''" example_tagmap_c] ne lc by simp
  show "row (build_row example_env (tl (header example_csv)) (''a.jpg'', example_tagmap_a))
      = data_rows example_csv ! 1"
    unfolding cols using m [of "''a.jpg''" example_tagmap_a] ma by simp
  show "row_log (build_row example_env (tl (header example_csv)) (''a.jpg'', example_tagmap_a)) = []"
    unfolding cols using m [of "''a.jpg''" example_tagmap_a] ne la by simp
qed

lemma example_write_rows:
  "write_rows example_env (tl (header example_csv))
       [(''c.jpg'', example_tagmap_c), (''a.jpg'', example_tagmap_a)] =
     ([data_rows example_csv ! 0, data_rows example_csv ! 1],
      [LogDecimalError ValueError, LogDecimalError ValueError], None)"
proof -
  have ok: "writerow_ok (data_rows example_csv ! 0)" "writerow_ok (data_rows example_csv ! 1)"
    by (simp_all add: example_csv_def writerow_ok_def)
  show ?thesis
    using ok by (simp add: Let_def example_rows)
qed

lemma example_run:
  "write_gps_to_csv example_env ''pics'' ''out.csv'' = (Some example_csv, example_log, None)"
proof -
  have ow: "open_w example_env ''out.csv'' = None" by (simp add: example_env_def)
  have so: "stdout_ok example_env (LogSaved ''out.csv'')" by (simp add: example_env_def)
  note w = write_saved [OF example_listdir example_scan example_sorted ow
      example_write_rows [folded example_columns] so]
  show ?thesis
    unfolding w example_columns by (simp add: example_csv_def example_log_def)
qed

subsection \<open>The header row\<close>

lemma header_shape:
  assumes "fst (write_gps_to_csv E d out) = Some f" and "listdir E d = Inr names"
  shows "\<exists>sk. set sk = observed_keys E d names - set excluded_keys
     \<and> distinct sk \<and> sorted_wrt key_less sk
     \<and> header f = KStr ''Image Name'' #
          filter (\<lambda>k. k \<noteq> KStr ''GPSLatitude'' \<and> k \<noteq> KStr ''GPSLongitude'') sk
          @ (if KStr ''GPSLatitude'' \<in> set sk then lat_columns else [])
          @ (if KStr ''GPSLongitude'' \<in> set sk then long_columns else [])
     \<and> data_rows f = fst (write_rows E (tl (header f))
                            (map (\<lambda>fn. (fn, tagmap_of E d fn)) (recorded E d names)))"
proof -
  from write_Some [OF assms(1)] assms(2) obtain sk where
    sk: "set sk = observed_keys E d names - set excluded_keys" "distinct sk" "sorted_wrt key_less sk"
    and h: "header f = KStr ''Image Name'' # expand_columns sk"
    and r: "data_rows f = fst (write_rows E (expand_columns sk)
                            (map (\<lambda>fn. (fn, tagmap_of E d fn)) (recorded E d names)))"
    by auto
  show ?thesis
    using sk h r expand_columns_distinct [OF sk(2)]
    by (intro exI [of _ sk]) simp
qed

text \<open>
  C1, as the code has it. When the export writes a file, its header row is
  \<open>Image Name\<close>, then the observed keys other than the two excluded ones and the two
  coordinate keys, in increasing order (tag names by code point, that is
  lexicographically; the numeric ids of unknown tags by value), then the four latitude
  columns if and only if some image has a GPSLatitude tag, then the four longitude columns
  if and only if some image has a GPSLongitude tag; neither coordinate key is a header
  name.
\<close>

theorem header_layout:
  assumes "fst (write_gps_to_csv E directory output_csv) = Some f"
    and "listdir E directory = Inr names"
  shows "\<exists>tags.
      header f = KStr ''Image Name'' # tags
        @ (if KStr ''GPSLatitude'' \<in> observed_keys E directory names
           then [KStr ''GPSLatitudeDegree'', KStr ''GPSLatitudeMinutes'',
                 KStr ''GPSLatitudeSeconds'', KStr ''GPSLatitudeDecimal'']
           else [])
        @ (if KStr ''GPSLongitude'' \<in> observed_keys E directory names
           then [KStr ''GPSLongDegree'', KStr ''GPSLongMinutes'',
                 KStr ''GPSLongSeconds'', KStr ''GPSLongitudeDecimal'']
           else [])
      \<and> set tags = observed_keys E directory names
            - {KStr ''GPSAltitudeRef'', KStr ''GPSVersionID'', KStr ''GPSLatitude'', KStr ''GPSLongitude''}
      \<and> sorted_wrt key_less tags
      \<and> KStr ''GPSLatitude'' \<notin> set (header f)
      \<and> KStr ''GPSLongitude'' \<notin> set (header f)"
proof -
  from header_shape [OF assms] obtain sk where
    sk: "set sk = observed_keys E directory names - set excluded_keys" "sorted_wrt key_less sk"
    and h: "header f = KStr ''Image Name'' #
          filter (\<lambda>k. k \<noteq> KStr ''GPSLatitude'' \<and> k \<noteq> KStr ''GPSLongitude'') sk
          @ (if KStr ''GPSLatitude'' \<in> set sk then lat_columns else [])
          @ (if KStr ''GPSLongitude'' \<in> set sk then long_columns else [])"
    by auto
  let ?tags = "filter (\<lambda>k. k \<noteq> KStr ''GPSLatitude'' \<and> k \<noteq> KStr ''GPSLongitude'') sk"
  have m: "KStr ''GPSLatitude'' \<in> set sk \<longleftrightarrow> KStr ''GPSLatitude'' \<in> observed_keys E directory names"
    "KStr ''GPSLongitude'' \<in> set sk \<longleftrightarrow> KStr ''GPSLongitude'' \<in> observed_keys E directory names"
    by (simp_all add: sk(1) excluded_keys_def)
  have t: "set ?tags = observed_keys E directory names
            - {KStr ''GPSAltitudeRef'', KStr ''GPSVersionID'', KStr ''GPSLatitude'', KStr ''GPSLongitude''}"
    using sk(1) by (auto simp: excluded_keys_def)
  have s: "sorted_wrt key_less ?tags" using sk(2) by (rule sorted_wrt_filter)
  have n: "KStr ''GPSLatitude'' \<notin> set (header f)" "KStr ''GPSLongitude'' \<notin> set (header f)"
    by (simp_all add: h lat_columns_def long_columns_def)
  show ?thesis
    using t s n h m
    by (intro exI [of _ ?tags]) (simp add: lat_columns_def long_columns_def)
qed

theorem header_layout_witness:
  "fst (write_gps_to_csv example_env ''pics'' ''out.csv'') = Some example_csv
   \<and> listdir example_env ''pics'' = Inr example_names
   \<and> (\<exists>tags.
      header example_csv = KStr ''Image Name'' # tags
        @ (if KStr ''GPSLatitude'' \<in> observed_keys example_env ''pics'' example_names
           then [KStr ''GPSLatitudeDegree'', KStr ''GPSLatitudeMinutes'',
                 KStr ''GPSLatitudeSeconds'', KStr ''GPSLatitudeDecimal'']
           else [])
        @ (if KStr ''GPSLongitude'' \<in> observed_keys example_env ''pics'' example_names
           then [KStr ''GPSLongDegree'', KStr ''GPSLongMinutes'',
                 KStr ''GPSLongSeconds'', KStr ''GPSLongitudeDecimal'']
           else [])
      \<and> set tags = observed_keys example_env ''pics'' example_names
            - {KStr ''GPSAltitudeRef'', KStr ''GPSVersionID'', KStr ''GPSLatitude'', KStr ''GPSLongitude''}
      \<and> sorted_wrt key_less tags
      \<and> KStr ''GPSLatitude'' \<notin> set (header example_csv)
      \<and> KStr ''GPSLongitude'' \<notin> set (header example_csv))"
proof -
  have a: "fst (write_gps_to_csv example_env ''pics'' ''out.csv'') = Some example_csv"
    by (simp add: example_run)
  show ?thesis
    using header_layout [OF a example_listdir] a example_listdir by simp
qed

text \<open>
  C1, as the specification states it, fails. An image whose GPS tags are the unknown ids
  100 and 99 gives the header \<open>Image Name, 99, 100\<close>: the two ids are in increasing
  order as integers, and their texts are not in lexicographic order.
\<close>

theorem header_lexicographic_counterexample:
  "fst (write_gps_to_csv numeric_tag_env ''pics'' ''out.csv'') = Some numeric_csv
   \<and> map key_text (header numeric_csv) = [''Image Name'', ''99'', ''100'']
   \<and> \<not> sorted (map key_text (tl (header numeric_csv)))"
proof -
  have l: "listdir numeric_tag_env ''pics'' = Inr [''n.jpg'']"
    by (simp add: numeric_tag_env_def)
  have j: "is_jpg ''n.jpg''" by (simp add: is_jpg_def endswith_def lower_def ascii_lower_def)
  have tm: "get_gps_info numeric_tag_env (path_join ''pics'' ''n.jpg'') =
      Inr ([(KInt 100, PInt 1), (KInt 99, PInt 2)], [])"
    by (simp add: path_join_def get_gps_info_def get_gps_info_body_def ebind_def
          numeric_tag_env_def example_env_def exif_n_def gps_tag_def)
  have sc: "scan numeric_tag_env ''pics'' ([], [], []) [''n.jpg''] =
      Inr ([KInt 100, KInt 99], [(''n.jpg'', [(KInt 100, PInt 1), (KInt 99, PInt 2)])], [])"
    by (simp add: scan_step_def j tm dict_keys_def)
  have so: "py_sorted (set_iter numeric_tag_env (set_minus [KInt 100, KInt 99] excluded_keys))
      = Inr [KInt 99, KInt 100]"
    by (simp add: set_minus_def excluded_keys_def set_iter_def py_sorted_def)
  have ex: "expand_columns [KInt 99, KInt 100] = [KInt 99, KInt 100]"
    by (simp add: expand_columns_def)
  have ow: "open_w numeric_tag_env ''out.csv'' = None"
    by (simp add: numeric_tag_env_def example_env_def)
  have nd: "KStr ''GPSLatitudeDecimal'' \<notin> set [KInt 99, KInt 100]"
    "KStr ''GPSLongitudeDecimal'' \<notin> set [KInt 99, KInt 100]" by simp_all
  have br: "row (build_row numeric_tag_env [KInt 99, KInt 100]
               (''n.jpg'', [(KInt 100, PInt 1), (KInt 99, PInt 2)])) = [PStr ''n.jpg'', PInt 2, PInt 1]"
    using build_row_memoized [OF nd, of "[]" "[]" numeric_tag_env "''n.jpg''"
        "[(KInt 100, PInt 1), (KInt 99, PInt 2)]"]
    by (simp add: memoized_row_def memoized_cell_def Let_def dict_get_def)
  have wr: "fst (write_rows numeric_tag_env [KInt 99, KInt 100]
               [(''n.jpg'', [(KInt 100, PInt 1), (KInt 99, PInt 2)])]) = [[PStr ''n.jpg'', PInt 2, PInt 1]]"
    by (simp add: Let_def br writerow_ok_def)
  have "fst (write_gps_to_csv numeric_tag_env ''pics'' ''out.csv'') =
      Some \<lparr>header = KStr ''Image Name'' # [KInt 99, KInt 100],
            data_rows = [[PStr ''n.jpg'', PInt 2, PInt 1]]\<rparr>"
    by (simp only: write_file export_file l sum.case sc fst_conv snd_conv so ow option.case ex wr)
  then have w: "fst (write_gps_to_csv numeric_tag_env ''pics'' ''out.csv'') = Some numeric_csv"
    by (simp add: numeric_csv_def)
  have t: "map key_text (header numeric_csv) = [''Image Name'', ''99'', ''100'']"
    by (simp add: numeric_csv_def int_text_def)
  show ?thesis using w t by (simp add: numeric_csv_def int_text_def)
qed

text \<open>
  C6. When the export writes a file, neither GPSAltitudeRef nor GPSVersionID is a name of
  its header row, whatever the tag maps of the images hold.
\<close>

theorem excluded_keys_not_in_header:
  assumes "fst (write_gps_to_csv E directory output_csv) = Some f"
  shows "KStr ''GPSAltitudeRef'' \<notin> set (header f) \<and> KStr ''GPSVersionID'' \<notin> set (header f)"
proof -
  from write_Some [OF assms] obtain names where n: "listdir E directory = Inr names" by auto
  from header_shape [OF assms n] obtain sk where
    sk: "set sk = observed_keys E directory names - set excluded_keys"
    and h: "header f = KStr ''Image Name'' #
          filter (\<lambda>k. k \<noteq> KStr ''GPSLatitude'' \<and> k \<noteq> KStr ''GPSLongitude'') sk
          @ (if KStr ''GPSLatitude'' \<in> set sk then lat_columns else [])
          @ (if KStr ''GPSLongitude'' \<in> set sk then long_columns else [])"
    by auto
  show ?thesis
    by (simp add: h sk lat_columns_def long_columns_def excluded_keys_def)
qed

theorem excluded_keys_not_in_header_witness:
  "KStr ''GPSAltitudeRef'' \<in> set (dict_keys (tagmap_of example_env ''pics'' ''a.jpg''))
   \<and> KStr ''GPSVersionID'' \<in> set (dict_keys (tagmap_of example_env ''pics'' ''a.jpg''))
   \<and> fst (write_gps_to_csv example_env ''pics'' ''out.csv'') = Some example_csv
   \<and> KStr ''GPSAltitudeRef'' \<notin> set (header example_csv)
   \<and> KStr ''GPSVersionID'' \<notin> set (header example_csv)"
proof -
  have a: "fst (write_gps_to_csv example_env ''pics'' ''out.csv'') = Some example_csv"
    by (simp add: example_run)
  have b: "KStr ''GPSAltitudeRef'' \<in> set (dict_keys (tagmap_of example_env ''pics'' ''a.jpg''))"
    "KStr ''GPSVersionID'' \<in> set (dict_keys (tagmap_of example_env ''pics'' ''a.jpg''))"
    by (simp_all add: example_tagmaps example_tagmap_a_def dict_keys_def)
  show ?thesis
    using excluded_keys_not_in_header [OF a] a b by simp
qed

subsection \<open>The data rows\<close>

lemma rows_prefix:
  assumes "fst (write_gps_to_csv E d out) = Some f" and "listdir E d = Inr names"
  shows "data_rows f = map (\<lambda>fn. row (build_row E (tl (header f)) (fn, tagmap_of E d fn)))
                         (take (length (data_rows f)) (recorded E d names))"
    and "length (data_rows f) \<le> length (recorded E d names)"
proof -
  let ?items = "map (\<lambda>fn. (fn, tagmap_of E d fn)) (recorded E d names)"
  from header_shape [OF assms] have
    r: "data_rows f = fst (write_rows E (tl (header f)) ?items)" by blast
  show "data_rows f = map (\<lambda>fn. row (build_row E (tl (header f)) (fn, tagmap_of E d fn)))
                         (take (length (data_rows f)) (recorded E d names))"
    using write_rows_take [of E "tl (header f)" ?items]
    by (simp add: r [symmetric] take_map comp_def)
  show "length (data_rows f) \<le> length (recorded E d names)"
    using write_rows_length [of E "tl (header f)" ?items] by (simp add: r)
qed

lemma rows_all:
  assumes "fst (write_gps_to_csv E d out) = Some f" and "listdir E d = Inr names"
    and "list_all (\<lambda>fn. writerow_ok (row (build_row E (tl (header f)) (fn, tagmap_of E d fn))))
           (recorded E d names)"
  shows "data_rows f = map (\<lambda>fn. row (build_row E (tl (header f)) (fn, tagmap_of E d fn)))
                         (recorded E d names)"
proof -
  let ?items = "map (\<lambda>fn. (fn, tagmap_of E d fn)) (recorded E d names)"
  from header_shape [OF assms(1,2)] have
    r: "data_rows f = fst (write_rows E (tl (header f)) ?items)" by blast
  have "list_all (\<lambda>item. writerow_ok (row (build_row E (tl (header f)) item))) ?items"
    using assms(3) by (simp add: list_all_iff)
  from write_rows_all [OF this] show ?thesis by (simp add: r comp_def)
qed

text \<open>
  When the export writes a file, its data rows are, in the order of the directory listing,
  rows for the entries whose name ends in \<^verbatim>\<open>.jpg\<close> in any case and whose tag map is not
  empty: the first cells of the rows are the first of those names, and an entry with an
  empty tag map has no row. There is one row for each such entry when every row can be
  encoded. The export writes a file when the listing succeeds, the first loop ends, the
  output file opens and the keys to sort are all texts or all integers.
\<close>

lemma rows_follow_listing:
  assumes "fst (write_gps_to_csv E directory output_csv) = Some f"
    and "listdir E directory = Inr names"
  shows "map hd (data_rows f) =
           map PStr (take (length (data_rows f))
             (filter (\<lambda>filename. endswith (lower filename) ''.jpg''
                       \<and> tagmap_of E directory filename \<noteq> []) names))
       \<and> length (data_rows f) \<le>
           length (filter (\<lambda>filename. endswith (lower filename) ''.jpg''
                       \<and> tagmap_of E directory filename \<noteq> []) names)
       \<and> list_all (\<lambda>r. length r = length (header f)) (data_rows f)"
proof -
  note r = rows_prefix [OF assms]
  from header_shape [OF assms] have h: "header f \<noteq> []" by auto
  have rec: "recorded E directory names =
      filter (\<lambda>filename. endswith (lower filename) ''.jpg''
                       \<and> tagmap_of E directory filename \<noteq> []) names"
    by (simp add: recorded_def is_jpg_def)
  have hd: "\<And>fn g cols. hd (row (build_row E cols (fn, g))) = PStr fn"
    using build_row_shape by (metis list.sel(1))
  have len: "\<And>fn g cols. length (row (build_row E cols (fn, g))) = Suc (length cols)"
    using build_row_shape by (metis length_Cons)
  have a: "map hd (data_rows f) = map PStr (take (length (data_rows f)) (recorded E directory names))"
    by (subst r(1)) (simp add: hd comp_def)
  have c: "list_all (\<lambda>r. length r = length (header f)) (data_rows f)"
    using h by (subst r(1)) (simp add: list_all_iff len)
  show ?thesis using a r(2) c by (simp add: rec)
qed

lemma rows_complete:
  assumes "fst (write_gps_to_csv E directory output_csv) = Some f"
    and "listdir E directory = Inr names"
    and "list_all (\<lambda>fn. writerow_ok (row (build_row E (tl (header f)) (fn, tagmap_of E directory fn))))
           (recorded E directory names)"
  shows "length (data_rows f) =
           length (filter (\<lambda>filename. endswith (lower filename) ''.jpg''
                       \<and> tagmap_of E directory filename \<noteq> []) names)"
proof -
  have rec: "recorded E directory names =
      filter (\<lambda>filename. endswith (lower filename) ''.jpg''
                       \<and> tagmap_of E directory filename \<noteq> []) names"
    by (simp add: recorded_def is_jpg_def)
  have "length (data_rows f) = length (recorded E directory names)"
    by (subst rows_all [OF assms]) simp
  then show ?thesis by (simp add: rec)
qed

lemma export_writes_file:
  assumes "listdir E d = Inr names" and "open_w E out = None"
    and "scan E d ([], [], []) names = Inr (ks, data, lg)"
    and "list_all is_KStr (set_minus ks excluded_keys)
         \<or> list_all is_KInt (set_minus ks excluded_keys)"
  shows "\<exists>f. fst (write_gps_to_csv E d out) = Some f"
proof -
  let ?ks = "set_iter E (set_minus ks excluded_keys)"
  have "list_all is_KStr ?ks \<or> list_all is_KInt ?ks"
    using assms(4) by (simp add: set_iter_def list_all_iff)
  then have "\<exists>sk. py_sorted ?ks = Inr sk"
    by (cases "list_all is_KStr ?ks") (simp_all add: py_sorted_def)
  then obtain sk where "py_sorted ?ks = Inr sk" by blast
  then show ?thesis
    by (simp add: write_file export_file assms(1,2,3))
qed

text \<open>
  C4 fails on the code. The directory has one entry, \<^verbatim>\<open>u.jpg\<close>, whose GPS block holds
  the known tag 1 (GPSLatitudeRef) and the unknown tag 99: the entry ends in \<^verbatim>\<open>.jpg\<close>
  and its tag map is not empty, the listing succeeds and the output file can be opened.
  The sort of the keys raises \<^verbatim>\<open>TypeError\<close>, the \<^verbatim>\<open>except\<close> clause of
  \<^verbatim>\<open>write_gps_to_csv\<close> prints it, and no file is written: no row for one such entry.
\<close>

theorem mixed_keys_abort_export:
  "listdir unknown_tag_env ''pics'' = Inr [''u.jpg'']
   \<and> open_w unknown_tag_env ''out.csv'' = None
   \<and> filter (\<lambda>filename. endswith (lower filename) ''.jpg''
          \<and> tagmap_of unknown_tag_env ''pics'' filename \<noteq> []) [''u.jpg'']
       = [''u.jpg'']
   \<and> get_gps_info unknown_tag_env (path_join ''pics'' ''u.jpg'')
       = Inr ([(KStr ''GPSLatitudeRef'', PStr ''N''), (KInt 99, PInt 7)], [])
   \<and> write_gps_to_csv unknown_tag_env ''pics'' ''out.csv'' = (None, [LogCsvError TypeError], None)"
proof -
  have l: "listdir unknown_tag_env ''pics'' = Inr [''u.jpg'']"
    by (simp add: unknown_tag_env_def)
  have o: "open_w unknown_tag_env ''out.csv'' = None"
    by (simp add: unknown_tag_env_def example_env_def)
  have p: "path_join ''pics'' ''u.jpg'' = ''pics/u.jpg''" by (simp add: path_join_def)
  have j: "is_jpg ''u.jpg''" by (simp add: is_jpg_def endswith_def lower_def ascii_lower_def)
  have tm: "get_gps_info unknown_tag_env ''pics/u.jpg'' =
      Inr ([(KStr ''GPSLatitudeRef'', PStr ''N''), (KInt 99, PInt 7)], [])"
    by (simp add: get_gps_info_def get_gps_info_body_def ebind_def unknown_tag_env_def
          example_env_def exif_u_def gps_tag_def)
  have sc: "scan unknown_tag_env ''pics'' ([], [], []) [''u.jpg''] =
      Inr ([KStr ''GPSLatitudeRef'', KInt 99],
           [(''u.jpg'', [(KStr ''GPSLatitudeRef'', PStr ''N''), (KInt 99, PInt 7)])], [])"
    by (simp add: scan_step_def j p tm dict_keys_def)
  have so: "py_sorted (set_iter unknown_tag_env
      (set_minus [KStr ''GPSLatitudeRef'', KInt 99] excluded_keys)) = Inl TypeError"
    by (simp add: set_minus_def excluded_keys_def set_iter_def py_sorted_def)
  have b: "export_body unknown_tag_env ''pics'' ''out.csv'' = (None, [], Some TypeError)"
    by (simp only: export_body_def l sum.case sc prod.case so)
  have pr: "stdout_ok unknown_tag_env (LogCsvError TypeError)"
    by (simp add: unknown_tag_env_def example_env_def)
  have w: "write_gps_to_csv unknown_tag_env ''pics'' ''out.csv'' = (None, [LogCsvError TypeError], None)"
    using write_raised [OF b pr] by simp
  show ?thesis
    using l o j w by (simp add: p tm is_jpg_def tagmap_of_def)
qed

text \<open>
  C5. When the export writes a file and the decoder's table of GPS tag names holds
  neither GPSLatitudeDecimal nor GPSLongitudeDecimal, every data row is the row of the
  version that splits each coordinate of the image once and converts it once: the four
  latitude cells come from one split of the image's GPSLatitude value and the decimal cell
  is \<^verbatim>\<open>calculate_decimal\<close> of the three components of that split, and likewise for the
  longitude. (The source calls \<^verbatim>\<open>parse_gps_coordinate\<close> once for each of the three
  component columns; the calls return the same triple.) The rows written are those of the
  first entries that contribute a row, and of all of them when every such row can be
  encoded.
\<close>

theorem rows_equal_memoized:
  assumes "fst (write_gps_to_csv E directory output_csv) = Some f"
    and "listdir E directory = Inr names"
    and "''GPSLatitudeDecimal'' \<notin> ran (GPSTAGS E)"
    and "''GPSLongitudeDecimal'' \<notin> ran (GPSTAGS E)"
  shows "data_rows f =
           map (\<lambda>filename. memoized_row E (tl (header f)) (filename, tagmap_of E directory filename))
             (take (length (data_rows f)) (recorded E directory names))
       \<and> (list_all (\<lambda>filename. writerow_ok
              (memoized_row E (tl (header f)) (filename, tagmap_of E directory filename)))
            (recorded E directory names) \<longrightarrow>
          data_rows f =
            map (\<lambda>filename. memoized_row E (tl (header f)) (filename, tagmap_of E directory filename))
              (recorded E directory names))"
proof -
  from header_shape [OF assms(1,2)] obtain sk where
    sk: "set sk = observed_keys E directory names - set excluded_keys"
    and h: "header f = KStr ''Image Name'' #
          filter (\<lambda>k. k \<noteq> KStr ''GPSLatitude'' \<and> k \<noteq> KStr ''GPSLongitude'') sk
          @ (if KStr ''GPSLatitude'' \<in> set sk then lat_columns else [])
          @ (if KStr ''GPSLongitude'' \<in> set sk then long_columns else [])"
    by auto
  let ?rest = "filter (\<lambda>k. k \<noteq> KStr ''GPSLatitude'' \<and> k \<noteq> KStr ''GPSLongitude'') sk"
  let ?L = "if KStr ''GPSLatitude'' \<in> set sk then lat_columns else []"
  let ?G = "if KStr ''GPSLongitude'' \<in> set sk then long_columns else []"
  have nd: "\<And>name. name \<notin> ran (GPSTAGS E) \<Longrightarrow> KStr name \<notin> set ?rest"
  proof
    fix name
    assume n: "name \<notin> ran (GPSTAGS E)" and m: "KStr name \<in> set ?rest"
    from m sk have "KStr name \<in> observed_keys E directory names" by auto
    then obtain i where "KStr name = gps_tag E i" using observed_keys_tags by blast
    with gps_tag_not_name [OF n, of i] show False by simp
  qed
  have t: "tl (header f) = ?rest @ ?L @ ?G" by (simp add: h)
  have m: "\<And>fn g. row (build_row E (tl (header f)) (fn, g)) = memoized_row E (tl (header f)) (fn, g)"
    unfolding t
    using build_row_memoized [OF nd [OF assms(3)] nd [OF assms(4)], of ?L ?G E]
    by simp
  have 1: "data_rows f =
           map (\<lambda>filename. memoized_row E (tl (header f)) (filename, tagmap_of E directory filename))
             (take (length (data_rows f)) (recorded E directory names))"
    using rows_prefix(1) [OF assms(1,2)] by (simp add: m)
  have 2: "data_rows f =
            map (\<lambda>filename. memoized_row E (tl (header f)) (filename, tagmap_of E directory filename))
              (recorded E directory names)"
    if "list_all (\<lambda>filename. writerow_ok
              (memoized_row E (tl (header f)) (filename, tagmap_of E directory filename)))
            (recorded E directory names)"
    using rows_all [OF assms(1,2)] that by (simp add: m)
  show ?thesis using 1 2 by blast
qed

theorem rows_equal_memoized_witness:
  "fst (write_gps_to_csv example_env ''pics'' ''out.csv'') = Some example_csv
   \<and> listdir example_env ''pics'' = Inr example_names
   \<and> ''GPSLatitudeDecimal'' \<notin> ran (GPSTAGS example_env)
   \<and> ''GPSLongitudeDecimal'' \<notin> ran (GPSTAGS example_env)
   \<and> recorded example_env ''pics'' example_names = [''c.jpg'', ''a.jpg'']
   \<and> list_all (\<lambda>filename. writerow_ok
         (memoized_row example_env (tl (header example_csv))
            (filename, tagmap_of example_env ''pics'' filename)))
       (recorded example_env ''pics'' example_names)
   \<and> data_rows example_csv =
       [memoized_row example_env (tl (header example_csv)) (''c.jpg'', example_tagmap_c),
        memoized_row example_env (tl (header example_csv)) (''a.jpg'', example_tagmap_a)]"
proof -
  have a: "fst (write_gps_to_csv example_env ''pics'' ''out.csv'') = Some example_csv"
    by (simp add: example_run)
  have b: "''GPSLatitudeDecimal'' \<notin> ran (GPSTAGS example_env)"
    and c: "''GPSLongitudeDecimal'' \<notin> ran (GPSTAGS example_env)"
    by (auto simp: example_env_def ran_def split: if_splits)
  note t = rows_equal_memoized [OF a example_listdir b c]
  have l: "length (data_rows example_csv) = 2" by (simp add: example_csv_def)
  from t have r: "data_rows example_csv =
       [memoized_row example_env (tl (header example_csv)) (''c.jpg'', example_tagmap_c),
        memoized_row example_env (tl (header example_csv)) (''a.jpg'', example_tagmap_a)]"
    by (simp add: l example_recorded example_tagmaps)
  have ok: "writerow_ok (data_rows example_csv ! 0)" "writerow_ok (data_rows example_csv ! 1)"
    by (simp_all add: example_csv_def writerow_ok_def)
  have w: "list_all (\<lambda>filename. writerow_ok
         (memoized_row example_env (tl (header example_csv))
            (filename, tagmap_of example_env ''pics'' filename)))
       (recorded example_env ''pics'' example_names)"
    using ok r by (simp add: example_recorded example_tagmaps)
  show ?thesis
    using a example_listdir b c r w by (simp add: example_recorded)
qed

subsection \<open>A coordinate that cannot be split\<close>

lemma rows_shape:
  assumes "fst (write_gps_to_csv E d out) = Some f" and "listdir E d = Inr names"
  shows "\<exists>cols. header f = KStr ''Image Name'' # cols
     \<and> data_rows f = map (\<lambda>fn. row (build_row E cols (fn, tagmap_of E d fn)))
                         (take (length (data_rows f)) (recorded E d names))
     \<and> length (data_rows f) \<le> length (recorded E d names)"
proof -
  from header_shape [OF assms] obtain cols where h: "header f = KStr ''Image Name'' # cols"
    by blast
  then have t: "tl (header f) = cols" by simp
  show ?thesis
    using h rows_prefix [OF assms] unfolding t by blast
qed

lemma row_step_lat_sentinel:
  assumes "parse_gps_coordinate (dict_get g (KStr ''GPSLatitude'') PNone) = sentinel"
    and "gps_lat_degree st = PStr [] \<and> gps_lat_minutes st = PStr [] \<and> gps_lat_seconds st = PStr []"
  shows "gps_lat_degree (row_step E g st k) = PStr []
       \<and> gps_lat_minutes (row_step E g st k) = PStr []
       \<and> gps_lat_seconds (row_step E g st k) = PStr []"
    and "k = KStr ''GPSLatitudeDecimal'' \<Longrightarrow> row (row_step E g st k) = row st @ [PStr []]"
  using assms
  by (simp_all add: row_step_def parse_io_eq sentinel_def calculate_decimal_sentinel
        split: prod.splits)

lemma row_loop_lat_sentinel:
  assumes "parse_gps_coordinate (dict_get g (KStr ''GPSLatitude'') PNone) = sentinel"
    and "gps_lat_degree st = PStr [] \<and> gps_lat_minutes st = PStr [] \<and> gps_lat_seconds st = PStr []"
    and "j < length ks" and "ks ! j = KStr ''GPSLatitudeDecimal''"
  shows "row (row_loop E g st ks) ! (length (row st) + j) = PStr []"
  using assms(2,3,4)
proof (induction ks arbitrary: st j)
  case Nil
  then show ?case by simp
next
  case (Cons k ks)
  let ?st = "row_step E g st k"
  note inv = row_step_lat_sentinel(1) [OF assms(1) Cons.prems(1), of E k]
  obtain c where c: "row ?st = row st @ [c]" using row_step_row by blast
  show ?case
  proof (cases j)
    case 0
    with Cons.prems have k: "k = KStr ''GPSLatitudeDecimal''" by simp
    obtain cells where cells: "row (row_loop E g ?st ks) = row ?st @ cells"
      using row_loop_row by blast
    show ?thesis
      using 0 cells row_step_lat_sentinel(2) [OF assms(1) Cons.prems(1) k, of E]
      by (simp add: nth_append)
  next
    case (Suc j')
    with Cons.prems have "j' < length ks" "ks ! j' = KStr ''GPSLatitudeDecimal''" by simp_all
    from Cons.IH [OF inv this] show ?thesis using Suc c by simp
  qed
qed

lemma build_row_lat_sentinel:
  assumes "parse_gps_coordinate (dict_get g (KStr ''GPSLatitude'') PNone) = sentinel"
    and "j < length cols" and "cols ! j = KStr ''GPSLatitudeDecimal''"
  shows "row (build_row E cols (fn, g)) ! Suc j = PStr []"
  using row_loop_lat_sentinel [OF assms(1) _ assms(2,3), of "row_init fn" E]
  by (simp add: build_row_def row_init_def)

lemma parse_two_items:
  assumes "py_seq_items v = Some [p, q]"
  shows "parse_gps_coordinate v = sentinel"
  using assms by (cases v) (auto simp: parse_cases split: list.splits)

text \<open>
  C2, as the code has it. \<^verbatim>\<open>parse_gps_coordinate\<close> returns the three elements, in
  order, of a list or a tuple of exactly three elements, and the sentinel for every other
  value: a missing value, a list or tuple of another length, a value of another type (a
  text of three characters too). When the GPSLatitude value of an image is a sequence of
  two items, every cell of its row under a column named GPSLatitudeDecimal is the empty
  text.
\<close>

theorem parse_gps_coordinate_contract:
  "parse_gps_coordinate (PTuple [a, b, c]) = (a, b, c)
   \<and> parse_gps_coordinate (PList [a, b, c]) = (a, b, c)
   \<and> ((\<forall>x y z. v \<noteq> PTuple [x, y, z] \<and> v \<noteq> PList [x, y, z]) \<longrightarrow>
        parse_gps_coordinate v = (PStr '''', PStr '''', PStr ''''))
   \<and> (fst (write_gps_to_csv E directory output_csv) = Some f
        \<and> listdir E directory = Inr names
        \<and> i < length (data_rows f) \<and> j < length (header f)
        \<and> header f ! j = KStr ''GPSLatitudeDecimal''
        \<and> py_seq_items (dict_get (tagmap_of E directory (recorded E directory names ! i))
             (KStr ''GPSLatitude'') PNone) = Some [p, q]
      \<longrightarrow> data_rows f ! i ! j = PStr '''')"
proof -
  have 1: "parse_gps_coordinate (PTuple [a, b, c]) = (a, b, c)"
    "parse_gps_coordinate (PList [a, b, c]) = (a, b, c)"
    by (simp_all add: parse_cases)
  have 2: "(\<forall>x y z. v \<noteq> PTuple [x, y, z] \<and> v \<noteq> PList [x, y, z]) \<longrightarrow>
        parse_gps_coordinate v = (PStr '''', PStr '''', PStr '''')"
    by (cases v) (auto simp: parse_cases sentinel_def split: list.splits)
  have 3: "data_rows f ! i ! j = PStr ''''"
    if w: "fst (write_gps_to_csv E directory output_csv) = Some f"
      and n: "listdir E directory = Inr names"
      and i: "i < length (data_rows f)" and j: "j < length (header f)"
      and hj: "header f ! j = KStr ''GPSLatitudeDecimal''"
      and two: "py_seq_items (dict_get (tagmap_of E directory (recorded E directory names ! i))
             (KStr ''GPSLatitude'') PNone) = Some [p, q]"
  proof -
    from rows_shape [OF w n] obtain cols where
      hc: "header f = KStr ''Image Name'' # cols"
      and r: "data_rows f = map (\<lambda>fn. row (build_row E cols (fn, tagmap_of E directory fn)))
                         (take (length (data_rows f)) (recorded E directory names))"
      and le: "length (data_rows f) \<le> length (recorded E directory names)"
      by blast
    from hj hc obtain j' where j': "j = Suc j'" by (cases j) auto
    have c: "j' < length cols" "cols ! j' = KStr ''GPSLatitudeDecimal''"
      using j hj hc j' by simp_all
    have il: "i < length (recorded E directory names)" using i le by simp
    let ?fn = "recorded E directory names ! i"
    have ri: "data_rows f ! i = row (build_row E cols (?fn, tagmap_of E directory ?fn))"
      using i il by (subst r) simp
    show ?thesis
      unfolding ri j'
      using build_row_lat_sentinel [OF parse_two_items [OF two] c] by simp
  qed
  show ?thesis using 1 2 3 by blast
qed

theorem parse_gps_coordinate_contract_witness:
  "parse_gps_coordinate (PTuple [PInt 1, PInt 2]) = (PStr '''', PStr '''', PStr '''')
   \<and> fst (write_gps_to_csv example_env ''pics'' ''out.csv'') = Some example_csv
   \<and> listdir example_env ''pics'' = Inr example_names
   \<and> header example_csv ! 7 = KStr ''GPSLatitudeDecimal''
   \<and> py_seq_items (dict_get (tagmap_of example_env ''pics'' (recorded example_env ''pics'' example_names ! 0))
             (KStr ''GPSLatitude'') PNone) = Some [PInt 1, PInt 2]
   \<and> data_rows example_csv ! 0 ! 7 = PStr ''''"
proof -
  have a: "fst (write_gps_to_csv example_env ''pics'' ''out.csv'') = Some example_csv"
    by (simp add: example_run)
  have h: "header example_csv ! 7 = KStr ''GPSLatitudeDecimal''"
    "7 < length (header example_csv)" "0 < length (data_rows example_csv)"
    by (simp_all add: example_csv_def)
  have t: "py_seq_items (dict_get (tagmap_of example_env ''pics'' (recorded example_env ''pics'' example_names ! 0))
             (KStr ''GPSLatitude'') PNone) = Some [PInt 1, PInt 2]"
    by (simp add: example_recorded example_tagmaps example_tagmap_c_def dict_get_def)
  show ?thesis
    using parse_gps_coordinate_contract [of "PInt 1" "PInt 2" "PInt 3" "PTuple [PInt 1, PInt 2]"
        example_env "''pics''" "''out.csv''" example_csv example_names 0 7 "PInt 1" "PInt 2"]
      a example_listdir h t
    by simp
qed

text \<open>
  C2, as the specification states it, fails: the text \<^verbatim>\<open>'abc'\<close> is present and is a
  sequence of exactly three items, and \<^verbatim>\<open>parse_gps_coordinate\<close> returns the sentinel
  for it, not its three items.
\<close>

theorem parse_gps_coordinate_sequence_counterexample:
  "\<not> (\<forall>v a b c. py_truthy v \<and> py_seq_items v = Some [a, b, c] \<longrightarrow>
         parse_gps_coordinate v = (a, b, c))"
proof
  assume "\<forall>v a b c. py_truthy v \<and> py_seq_items v = Some [a, b, c] \<longrightarrow>
         parse_gps_coordinate v = (a, b, c)"
  then have "parse_gps_coordinate (PStr ''abc'') = (PStr ''a'', PStr ''b'', PStr ''c'')"
    by simp
  then show False by (simp add: parse_cases sentinel_def)
qed

subsection \<open>Runs that differ in the environment\<close>

lemma write_cong:
  assumes "\<And>fn. get_gps_info E' (path_join d fn) = get_gps_info E (path_join d fn)"
    and "strtod E' = strtod E" "open_w E' out = open_w E out" "listdir E' d = listdir E d"
  shows "fst (write_gps_to_csv E' d out) = fst (write_gps_to_csv E d out)"
proof (cases "listdir E d")
  case (Inl e)
  then show ?thesis using assms(4) by (simp add: write_file export_file)
next
  case (Inr names)
  have sc: "scan E' d ([], [], []) names = scan E d ([], [], []) names"
    by (rule scan_cong [OF assms(1)])
  have wr: "write_rows E' = write_rows E"
    by (intro ext) (rule write_rows_cong [OF assms(2)])
  show ?thesis
  proof (cases "scan E d ([], [], []) names")
    case (Inl raised)
    then show ?thesis using Inr assms(4) sc by (simp add: write_file export_file)
  next
    case st: (Inr st)
    show ?thesis
      using Inr assms(3,4) sc st
      by (simp add: write_file export_file wr py_sorted_set_iter [of E' _ E]
            split: sum.splits option.splits)
  qed
qed

text \<open>
  C8. The file that the export writes is a function of the directory listing and of the
  tag map of each file, given the float parser and whether the output file opens. Two
  runs that agree on these write the same file, whatever the decoder's tables are and in
  whatever order the set of keys is iterated, the one thing that changes between two runs
  of the interpreter on an unchanged directory.
\<close>

theorem export_deterministic:
  assumes "listdir E' directory = listdir E directory"
    and "\<And>filename. get_gps_info E' (path_join directory filename)
                       = get_gps_info E (path_join directory filename)"
    and "open_w E' output_csv = open_w E output_csv"
    and "strtod E' = strtod E"
  shows "fst (write_gps_to_csv E' directory output_csv)
           = fst (write_gps_to_csv E directory output_csv)"
  by (rule write_cong [OF assms(2,4,3,1)])

theorem export_deterministic_witness:
  "listdir (example_env\<lparr>py_hash := (\<lambda>k. 0)\<rparr>) ''pics'' = listdir example_env ''pics''
   \<and> get_gps_info (example_env\<lparr>py_hash := (\<lambda>k. 0)\<rparr>) = get_gps_info example_env
   \<and> py_hash (example_env\<lparr>py_hash := (\<lambda>k. 0)\<rparr>) \<noteq> py_hash example_env
   \<and> fst (write_gps_to_csv (example_env\<lparr>py_hash := (\<lambda>k. 0)\<rparr>) ''pics'' ''out.csv'')
       = fst (write_gps_to_csv example_env ''pics'' ''out.csv'')
   \<and> fst (write_gps_to_csv example_env ''pics'' ''out.csv'') = Some example_csv"
proof -
  let ?E = "example_env\<lparr>py_hash := (\<lambda>k. 0)\<rparr>"
  have g: "get_gps_info ?E = get_gps_info example_env"
    by (intro ext) (simp add: get_gps_info_cong [of ?E example_env])
  have h: "py_hash ?E \<noteq> py_hash example_env"
  proof
    assume "py_hash ?E = py_hash example_env"
    then have "py_hash ?E (KInt 1) = py_hash example_env (KInt 1)" by simp
    then show False by (simp add: example_env_def)
  qed
  have "fst (write_gps_to_csv ?E ''pics'' ''out.csv'')
      = fst (write_gps_to_csv example_env ''pics'' ''out.csv'')"
    by (rule export_deterministic) (simp_all add: g)
  then show ?thesis using g h by (simp add: example_run)
qed

subsection \<open>An image that cannot be read\<close>

lemma get_gps_info_printed:
  assumes "get_gps_info_body E image_path = Inl e"
    and "stdout_ok E (LogReadError image_path e)"
  shows "get_gps_info E image_path = Inr ([], [LogReadError image_path e])"
  using assms by (simp add: get_gps_info_def py_print_def ebind_def)

lemma get_gps_info_raises:
  assumes "get_gps_info_body E image_path = Inl e"
    and "\<not> stdout_ok E (LogReadError image_path e)"
  shows "get_gps_info E image_path = Inl UnicodeEncodeError"
  using assms by (simp add: get_gps_info_def py_print_def ebind_def)

lemma get_gps_info_returns:
  assumes "get_gps_info_body E image_path = Inr g"
  shows "get_gps_info E image_path = Inr (g, [])"
  using assms by (simp add: get_gps_info_def)

text \<open>
  C7 fails on the code. The directory has the entries \<^verbatim>\<open>a.jpg\<close>, with a GPS block, and
  an entry whose name ends in \<^verbatim>\<open>.jpg\<close> and is not valid UTF-8, which the decoder
  cannot read; the standard output is encoded as strict UTF-8. The \<^verbatim>\<open>except\<close> clause of
  \<^verbatim>\<open>get_gps_info\<close> catches the failure of the decoder, and its \<^verbatim>\<open>print\<close>, which
  interpolates the path, raises \<^verbatim>\<open>UnicodeEncodeError\<close>: the exception leaves
  \<^verbatim>\<open>get_gps_info\<close>, no tag map is returned, the first loop of \<^verbatim>\<open>write_gps_to_csv\<close>
  ends there and no file is written. Without that entry the export writes a file with the
  row of \<^verbatim>\<open>a.jpg\<close>.
\<close>

theorem undecodable_name_aborts_batch:
  "listdir undecodable_env ''pics'' = Inr [''a.jpg'', undecodable_name]
   \<and> endswith (lower undecodable_name) ''.jpg''
   \<and> getexif undecodable_env (path_join ''pics'' undecodable_name)
       = Inl (DecoderError ''cannot identify image file'')
   \<and> get_gps_info undecodable_env (path_join ''pics'' undecodable_name) = Inl UnicodeEncodeError
   \<and> get_gps_info undecodable_env (path_join ''pics'' ''a.jpg'') = Inr (example_tagmap_a, [])
   \<and> write_gps_to_csv undecodable_env ''pics'' ''out.csv''
       = (None, [LogCsvError UnicodeEncodeError], None)
   \<and> write_gps_to_csv (undecodable_env\<lparr>listdir := (\<lambda>d. Inr [''a.jpg''])\<rparr>) ''pics'' ''out.csv''
       = (Some \<lparr>header = header example_csv, data_rows = [data_rows example_csv ! 1]\<rparr>,
          [LogSaved ''out.csv''], None)"
proof -
  let ?E = undecodable_env
  let ?E1 = "undecodable_env\<lparr>listdir := (\<lambda>d. Inr [''a.jpg''])\<rparr>"
  let ?bad = "path_join ''pics'' undecodable_name"
  let ?ks = "[KStr ''GPSVersionID'', KStr ''GPSLatitudeRef'', KStr ''GPSLatitude'',
        KStr ''GPSLongitudeRef'', KStr ''GPSLongitude'', KStr ''GPSAltitudeRef'',
        KStr ''GPSAltitude'']"
  have l: "listdir ?E ''pics'' = Inr [''a.jpg'', undecodable_name]"
    by (simp add: undecodable_env_def)
  have j: "is_jpg undecodable_name"
    by (simp add: undecodable_name_def is_jpg_def endswith_def lower_def ascii_lower_def)
  have x: "getexif ?E ?bad = Inl (DecoderError ''cannot identify image file'')"
    by (simp add: undecodable_env_def example_env_def undecodable_name_def path_join_def)
  have b: "get_gps_info_body ?E ?bad = Inl (DecoderError ''cannot identify image file'')"
    by (simp add: get_gps_info_body_def ebind_def x)
  have n: "\<not> stdout_ok ?E (LogReadError ?bad (DecoderError ''cannot identify image file''))"
    by (simp add: undecodable_env_def example_env_def undecodable_name_def path_join_def)
  have g: "get_gps_info ?E ?bad = Inl UnicodeEncodeError"
    by (rule get_gps_info_raises [OF b n])
  have "get_gps_info ?E ''pics/a.jpg'' = get_gps_info example_env ''pics/a.jpg''"
    by (rule get_gps_info_cong) (simp_all add: undecodable_env_def)
  then have a: "get_gps_info ?E ''pics/a.jpg'' = Inr (example_tagmap_a, [])"
    by (simp add: example_reads)
  have "get_gps_info ?E1 ''pics/a.jpg'' = get_gps_info example_env ''pics/a.jpg''"
    by (rule get_gps_info_cong) (simp_all add: undecodable_env_def)
  then have a1: "get_gps_info ?E1 ''pics/a.jpg'' = Inr (example_tagmap_a, [])"
    by (simp add: example_reads)
  have k: "dict_keys example_tagmap_a = ?ks"
    by (simp add: dict_keys_def example_tagmap_a_def)
  have ne: "example_tagmap_a \<noteq> []" by (simp add: example_tagmap_a_def)
  have sc: "scan ?E ''pics'' ([], [], []) [''a.jpg'', undecodable_name] = Inl (UnicodeEncodeError, [])"
    by (simp add: scan_step_def example_is_jpg j example_paths a g ne)
  have eb: "export_body ?E ''pics'' ''out.csv'' = (None, [], Some UnicodeEncodeError)"
    by (simp only: export_body_def l sum.case sc prod.case)
  have pr: "stdout_ok ?E (LogCsvError UnicodeEncodeError)"
    by (simp add: undecodable_env_def example_env_def)
  have w: "write_gps_to_csv ?E ''pics'' ''out.csv'' = (None, [LogCsvError UnicodeEncodeError], None)"
    using write_raised [OF eb pr] by simp
  have l1: "listdir ?E1 ''pics'' = Inr [''a.jpg'']" by simp
  have sc1: "scan ?E1 ''pics'' ([], [], []) [''a.jpg''] = Inr (?ks, [(''a.jpg'', example_tagmap_a)], [])"
    by (simp add: scan_step_def example_is_jpg example_paths a1 ne k)
  have so1: "py_sorted (set_iter ?E1 (set_minus ?ks excluded_keys)) =
     Inr [KStr ''GPSAltitude'', KStr ''GPSLatitude'', KStr ''GPSLatitudeRef'',
          KStr ''GPSLongitude'', KStr ''GPSLongitudeRef'']"
    by (simp add: py_sorted_def set_iter_def set_minus_def excluded_keys_def
          undecodable_env_def example_env_def)
  have ow1: "open_w ?E1 ''out.csv'' = None" by (simp add: undecodable_env_def example_env_def)
  have sv1: "stdout_ok ?E1 (LogSaved ''out.csv'')" by (simp add: undecodable_env_def example_env_def)
  have ok: "writerow_ok (data_rows example_csv ! 1)"
    by (simp add: example_csv_def writerow_ok_def)
  have "write_rows example_env (tl (header example_csv)) [(''a.jpg'', example_tagmap_a)] =
      ([data_rows example_csv ! 1], [], None)"
    using ok by (simp add: Let_def example_rows)
  moreover have "write_rows ?E1 (tl (header example_csv)) [(''a.jpg'', example_tagmap_a)] =
      write_rows example_env (tl (header example_csv)) [(''a.jpg'', example_tagmap_a)]"
    by (rule write_rows_cong) (simp add: undecodable_env_def)
  ultimately have wr1: "write_rows ?E1 (tl (header example_csv)) [(''a.jpg'', example_tagmap_a)] =
      ([data_rows example_csv ! 1], [], None)"
    by simp
  note w1 = write_saved [OF l1 sc1 so1 ow1 wr1 [folded example_columns] sv1]
  have w1': "write_gps_to_csv ?E1 ''pics'' ''out.csv''
       = (Some \<lparr>header = header example_csv, data_rows = [data_rows example_csv ! 1]\<rparr>,
          [LogSaved ''out.csv''], None)"
    unfolding w1 example_columns by (simp add: example_csv_def)
  show ?thesis
    using l j x g a w w1' by (simp add: example_paths is_jpg_def)
qed

subsection \<open>Unknown GPS tag ids\<close>

lemma exif_loop_first:
  assumes "TAGS E tag_id = Some ''GPSInfo''"
    and "list_all (\<lambda>(t, v). TAGS E t \<noteq> Some ''GPSInfo'') pre"
  shows "exif_loop E (pre @ (tag_id, PDict d) # post) = Inr (gps_items_loop E d [])"
  using assms by (induction pre) auto

text \<open>
  C10. When the GPSInfo dictionary of an image holds a sub-tag id that the GPSTAGS table
  does not know, the tag map that \<^verbatim>\<open>get_gps_info\<close> returns has the integer id itself
  as a key; and when the image is a \<^verbatim>\<open>.jpg\<close> entry of the directory, that integer is in
  the set of keys that the first loop of \<^verbatim>\<open>write_gps_to_csv\<close> collects and in the list
  that it sorts.
\<close>

theorem unknown_gps_tag_keeps_numeric_id:
  assumes "getexif E image_path = Inr (Some (pre @ (tag_id, PDict d) # post))"
    and "TAGS E tag_id = Some ''GPSInfo''"
    and "list_all (\<lambda>(t, v). TAGS E t \<noteq> Some ''GPSInfo'') pre"
    and "(i, v) \<in> set d"
    and "GPSTAGS E i = None"
  shows "(\<exists>gps_info. get_gps_info E image_path = Inr (gps_info, [])
            \<and> KInt i \<in> set (dict_keys gps_info))
       \<and> (image_path = path_join directory filename \<and> filename \<in> set names \<and> is_jpg filename
            \<and> scan E directory ([], [], []) names = Inr (all_gps_keys, gps_data_list, lg) \<longrightarrow>
            KInt i \<in> set all_gps_keys
          \<and> KInt i \<in> set (set_iter E (set_minus all_gps_keys excluded_keys)))"
proof -
  let ?g = "gps_items_loop E d []"
  have "get_gps_info_body E image_path = Inr ?g"
    using assms(1) exif_loop_first [OF assms(2,3), of d post]
    by (simp add: get_gps_info_body_def ebind_def)
  then have g: "get_gps_info E image_path = Inr (?g, [])"
    by (simp add: get_gps_info_def)
  have t: "gps_tag E i = KInt i" using assms(5) by (simp add: gps_tag_def)
  have "gps_tag E i \<in> gps_tag E ` fst ` set d" using assms(4) by force
  then have k: "KInt i \<in> set (dict_keys ?g)"
    by (simp add: gps_items_loop_keys t)
  have s: "KInt i \<in> set all_gps_keys
          \<and> KInt i \<in> set (set_iter E (set_minus all_gps_keys excluded_keys))"
    if p: "image_path = path_join directory filename" and f: "filename \<in> set names"
      and j: "is_jpg filename"
      and sc: "scan E directory ([], [], []) names = Inr (all_gps_keys, gps_data_list, lg)"
  proof -
    have tm: "tagmap_of E directory filename = ?g"
      using g p by (simp add: tagmap_of_def)
    have ne: "tagmap_of E directory filename \<noteq> []"
      using k tm by (auto simp: dict_keys_def)
    have "filename \<in> set (recorded E directory names)"
      using f j ne by (simp add: recorded_def)
    moreover have "KInt i \<in> set (dict_keys (tagmap_of E directory filename))"
      using k by (simp add: tm)
    ultimately have o: "KInt i \<in> observed_keys E directory names"
      unfolding observed_keys_def by blast
    from scan_result [OF sc] have "set all_gps_keys = observed_keys E directory names" by simp
    then show ?thesis
      using o by (simp add: set_iter_def set_minus_def excluded_keys_def)
  qed
  show ?thesis using g k s by blast
qed

theorem unknown_gps_tag_keeps_numeric_id_witness:
  "getexif unknown_tag_env ''pics/u.jpg'' = Inr (Some ([] @ (34853, PDict [(1, PStr ''N''), (99, PInt 7)]) # []))
   \<and> GPSTAGS unknown_tag_env 99 = None
   \<and> get_gps_info unknown_tag_env ''pics/u.jpg''
       = Inr ([(KStr ''GPSLatitudeRef'', PStr ''N''), (KInt 99, PInt 7)], [])
   \<and> scan unknown_tag_env ''pics'' ([], [], []) [''u.jpg''] =
       Inr ([KStr ''GPSLatitudeRef'', KInt 99],
            [(''u.jpg'', [(KStr ''GPSLatitudeRef'', PStr ''N''), (KInt 99, PInt 7)])], [])
   \<and> (\<exists>gps_info. get_gps_info unknown_tag_env ''pics/u.jpg'' = Inr (gps_info, [])
            \<and> KInt 99 \<in> set (dict_keys gps_info))
   \<and> KInt 99 \<in> set (set_iter unknown_tag_env
         (set_minus [KStr ''GPSLatitudeRef'', KInt 99] excluded_keys))"
proof -
  have a: "getexif unknown_tag_env ''pics/u.jpg'' =
      Inr (Some ([] @ (34853, PDict [(1, PStr ''N''), (99, PInt 7)]) # []))"
    by (simp add: unknown_tag_env_def exif_u_def)
  have b: "TAGS unknown_tag_env 34853 = Some ''GPSInfo''"
    by (simp add: unknown_tag_env_def example_env_def)
  have c: "GPSTAGS unknown_tag_env 99 = None"
    by (simp add: unknown_tag_env_def example_env_def)
  have d: "(99, PInt 7) \<in> set [(1, PStr ''N''), (99 :: int, PInt 7)]" by simp
  have p: "''pics/u.jpg'' = path_join ''pics'' ''u.jpg''" by (simp add: path_join_def)
  have j: "is_jpg ''u.jpg''" by (simp add: is_jpg_def endswith_def lower_def ascii_lower_def)
  have tm: "get_gps_info unknown_tag_env ''pics/u.jpg'' =
      Inr ([(KStr ''GPSLatitudeRef'', PStr ''N''), (KInt 99, PInt 7)], [])"
    by (simp add: get_gps_info_def get_gps_info_body_def ebind_def unknown_tag_env_def
          example_env_def exif_u_def gps_tag_def)
  have sc: "scan unknown_tag_env ''pics'' ([], [], []) [''u.jpg''] =
      Inr ([KStr ''GPSLatitudeRef'', KInt 99],
           [(''u.jpg'', [(KStr ''GPSLatitudeRef'', PStr ''N''), (KInt 99, PInt 7)])], [])"
    by (simp add: scan_step_def j p [symmetric] tm dict_keys_def)
  show ?thesis
    using unknown_gps_tag_keeps_numeric_id [OF a b _ d c, of "''pics''" "''u.jpg''" "[''u.jpg'']"
        "[KStr ''GPSLatitudeRef'', KInt 99]"
        "[(''u.jpg'', [(KStr ''GPSLatitudeRef'', PStr ''N''), (KInt 99, PInt 7)])]" "[]"]
      a c p j tm sc
    by simp
qed

subsection \<open>Instances of the two converters\<close>

theorem parse_gps_coordinate_total_witness:
  "parse_gps_coordinate (PTuple [PInt 10, PInt 30, PInt 0]) = (PInt 10, PInt 30, PInt 0)
   \<and> parse_gps_coordinate (PList [PInt 10, PInt 30, PInt 0]) = (PInt 10, PInt 30, PInt 0)
   \<and> parse_gps_coordinate (PStr ''abc'') = (PStr '''', PStr '''', PStr '''')
   \<and> parse_gps_coordinate PNone = (PStr '''', PStr '''', PStr '''')
   \<and> snd (parse_gps_coordinate_io (PInt 5)) = []"
  using parse_gps_coordinate_total [of "PTuple [PInt 10, PInt 30, PInt 0]"]
    parse_gps_coordinate_total [of "PList [PInt 10, PInt 30, PInt 0]"]
    parse_gps_coordinate_total [of PNone] parse_gps_coordinate_total [of "PInt 5"]
  by simp


end
